theory Spec2Isabelle
  imports Main "HOL-Library.AList"
begin

section \<open>Values exchanged with the operating system\<close>

text \<open>
  The monitor of \<^verbatim>\<open>src/scr/main.py\<close> (and its older, process-only form
  \<^verbatim>\<open>src/main.py\<close>) talks to the host through \<^verbatim>\<open>psutil\<close>, \<^verbatim>\<open>logging\<close> and
  \<^verbatim>\<open>print\<close>. Every such call is an input of the model: what it returned, or the
  exception it raised.

  \<^verbatim>\<open>psutil.NoSuchProcess\<close> (with its subclass \<^verbatim>\<open>ZombieProcess\<close>) is the one
  exception class the source names; every other subclass of \<^verbatim>\<open>Exception\<close>
  (\<^verbatim>\<open>AccessDenied\<close>, \<^verbatim>\<open>OSError\<close>, ...) is \<open>OtherException\<close>. Both carry the
  text that \<^verbatim>\<open>f"{e}"\<close> renders.
\<close>

datatype exn = NoSuchProcess string | OtherException string

fun str_exn :: "exn \<Rightarrow> string" where
  "str_exn (NoSuchProcess s) = s"
| "str_exn (OtherException s) = s"

text \<open>Python's \<^verbatim>\<open>str\<close> on an integer: decimal digits, a minus sign when negative.\<close>

definition digit :: "nat \<Rightarrow> char" where
  "digit d = ''0123456789'' ! d"

fun str_nat :: "nat \<Rightarrow> string" where
  "str_nat n = (if n < 10 then [digit n] else str_nat (n div 10) @ [digit (n mod 10)])"

declare str_nat.simps [simp del]

definition str_int :: "int \<Rightarrow> string" where
  "str_int i = (if i < 0 then ''-'' @ str_nat (nat (- i)) else str_nat (nat i))"

text \<open>
  A \<^verbatim>\<open>psutil.Process\<close> object: \<^verbatim>\<open>name()\<close> and \<^verbatim>\<open>create_time()\<close> each return
  or raise. The creation time is taken already rendered by
  \<^verbatim>\<open>datetime.fromtimestamp(...).strftime('%Y-%m-%d %H:%M:%S')\<close>; a failure of that
  rendering is a failure of \<open>proc_create_time\<close>.
\<close>

record process =
  proc_name :: "exn + string"
  proc_create_time :: "exn + string"

text \<open>
  An address of a connection: the named tuple \<^verbatim>\<open>addr(ip, port)\<close>, a string (the
  path of a UNIX socket), or an empty tuple / \<^verbatim>\<open>None\<close>.
\<close>

datatype addr = AddrPair string int | AddrStr string | AddrNone

text \<open>
  An \<^verbatim>\<open>sconn\<close> of \<^verbatim>\<open>psutil.net_connections()\<close>. Its \<^verbatim>\<open>fd\<close> field is never
  read by the monitor and is left out; family and type are the integer values of their
  enumerations.
\<close>

record sconn =
  sc_family :: int
  sc_type :: int
  sc_laddr :: addr
  sc_raddr :: addr
  sc_status :: string
  sc_pid :: "int option"

text \<open>
  One poll cycle's view of the host. \<open>pids\<close> is \<^verbatim>\<open>psutil.pids()\<close>, \<open>Process\<close> is
  \<^verbatim>\<open>psutil.Process(pid)\<close>, \<open>net_connections\<close> is \<^verbatim>\<open>psutil.net_connections()\<close>;
  an item \<open>Inl e\<close> of the connection list is one on which \<^verbatim>\<open>_conn_key\<close> raises
  \<open>e\<close>. \<open>print_raises msg\<close> is the exception \<^verbatim>\<open>print(msg)\<close> raises, if any
  (a closed or non-encoding standard output). \<open>interrupted\<close> says that
  \<^verbatim>\<open>KeyboardInterrupt\<close> arrives during the \<^verbatim>\<open>time.sleep\<close> that follows the cycle.
\<close>

record os =
  pids :: "exn + int list"
  Process :: "int \<Rightarrow> exn + process"
  net_connections :: "exn + (exn + sconn) list"
  print_raises :: "string \<Rightarrow> exn option"
  interrupted :: bool

section \<open>Monitor state and what it emits\<close>

type_synonym conn_key = "int \<times> int \<times> string option \<times> string option \<times> string \<times> int option"

text \<open>The dictionary stored per connection: keys \<^verbatim>\<open>status\<close>, \<^verbatim>\<open>pid\<close>, \<^verbatim>\<open>laddr\<close>, \<^verbatim>\<open>raddr\<close>.\<close>

record conn_record =
  info_status :: string
  info_pid :: string
  info_laddr :: "string option"
  info_raddr :: "string option"

text \<open>
  \<^verbatim>\<open>self.pid_info\<close> and \<^verbatim>\<open>self.conn_info\<close> are dictionaries: association lists
  written with \<open>AList.update\<close> (assignment) and \<open>AList.delete\<close> (\<^verbatim>\<open>pop\<close>), read
  with \<open>map_of\<close> (\<^verbatim>\<open>get\<close>). The configuration fields \<^verbatim>\<open>interval\<close> and
  \<^verbatim>\<open>log_file\<close> take no part in polling and are left out.
\<close>

record monitor =
  running :: bool
  pid_info :: "(int \<times> string) list"
  monitor_network :: bool
  conn_info :: "(conn_key \<times> conn_record) list"

text \<open>
  A lifecycle event is one call of \<^verbatim>\<open>_log_start\<close>, \<^verbatim>\<open>_log_end\<close>,
  \<^verbatim>\<open>_log_conn_start\<close> or \<^verbatim>\<open>_log_conn_end\<close> that reached its message: the
  identity it was called for and the values put into the message. For a connection
  these are local address, remote address, status and pid, in the order of the message.
\<close>

datatype event =
    ProcessStarted int string string
  | ProcessEnded int "string option"
  | ConnectionStarted conn_key "string option" "string option" "string option" "string option"
  | ConnectionEnded conn_key "string option" "string option" "string option" "string option"

fun fmt :: "string option \<Rightarrow> string" where
  "fmt None = ''None''"
| "fmt (Some s) = s"

fun message :: "event \<Rightarrow> string" where
  "message (ProcessStarted pid name created) =
     ''Process Started - PID: '' @ str_int pid @ '', Name: '' @ name @ '', Created: '' @ created"
| "message (ProcessEnded pid name) =
     (if name \<noteq> None \<and> name \<noteq> Some []
      then ''Process Ended - PID: '' @ str_int pid @ '', Name: '' @ fmt name
      else ''Process Ended - PID: '' @ str_int pid)"
| "message (ConnectionStarted key l r status pid) =
     ''Connection Started - Local: '' @ fmt l @ '', Remote: '' @ fmt r
       @ '', Status: '' @ fmt status @ '', PID: '' @ fmt pid"
| "message (ConnectionEnded key l r status pid) =
     ''Connection Ended - Local: '' @ fmt l @ '', Remote: '' @ fmt r
       @ '', Status: '' @ fmt status @ '', PID: '' @ fmt pid"

text \<open>
  What a run writes, in order. \<open>LogEvent ev\<close> is \<^verbatim>\<open>logging.info(msg)\<close> and
  \<open>PrintEvent ev\<close> is \<^verbatim>\<open>print(msg)\<close> for the message of a lifecycle event;
  \<open>Log\<close> and \<open>Print\<close> are every other logging call and print. The logging calls are
  recorded with their level; \<^verbatim>\<open>basicConfig(level=logging.INFO)\<close> keeps the
  \<open>DEBUG\<close> ones out of the log file.
\<close>

datatype level = DEBUG | INFO | ERROR

datatype entry = LogEvent event | PrintEvent event | Log level string | Print string

text \<open>
  A method returns the exception that escaped it (if any), the monitor as it left it,
  and what it wrote.
\<close>

type_synonym result = "exn option \<times> monitor \<times> entry list"

definition and_then :: "result \<Rightarrow> (monitor \<Rightarrow> result) \<Rightarrow> result" where
  "and_then r f =
     (case r of
        (Some e, m, out) \<Rightarrow> (Some e, m, out)
      | (None, m, out) \<Rightarrow> (case f m of (r', m', out') \<Rightarrow> (r', m', out @ out')))"

text \<open>A \<^verbatim>\<open>for\<close> loop over a list, left by the first exception of its body.\<close>

fun for_each :: "('a \<Rightarrow> monitor \<Rightarrow> result) \<Rightarrow> 'a list \<Rightarrow> monitor \<Rightarrow> result" where
  "for_each f [] m = (None, m, [])"
| "for_each f (x # xs) m = and_then (f x m) (for_each f xs)"

text \<open>The pair \<^verbatim>\<open>logging.info(msg); print(msg)\<close> that ends every event method.\<close>

definition emit :: "os \<Rightarrow> event \<Rightarrow> exn option \<times> entry list" where
  "emit os ev =
     (case print_raises os (message ev) of
        None \<Rightarrow> (None, [LogEvent ev, PrintEvent ev])
      | Some e \<Rightarrow> (Some e, [LogEvent ev]))"

section \<open>Process watcher\<close>

text \<open>The three calls of \<^verbatim>\<open>_log_start\<close> that read the process: the first to raise decides.\<close>

definition fetch :: "os \<Rightarrow> int \<Rightarrow> exn + string \<times> string" where
  "fetch os pid =
     (case Process os pid of
        Inl e \<Rightarrow> Inl e
      | Inr proc \<Rightarrow>
          (case proc_name proc of
             Inl e \<Rightarrow> Inl e
           | Inr name \<Rightarrow>
               (case proc_create_time proc of
                  Inl e \<Rightarrow> Inl e
                | Inr created \<Rightarrow> Inr (name, created))))"

text \<open>The two \<^verbatim>\<open>except\<close> clauses of \<^verbatim>\<open>_log_start\<close>.\<close>

fun start_handler :: "int \<Rightarrow> exn \<Rightarrow> entry list" where
  "start_handler pid (NoSuchProcess s) = []"
| "start_handler pid (OtherException s) =
     [Log ERROR (''Error logging start for PID '' @ str_int pid @ '': '' @ s)]"

definition log_start :: "os \<Rightarrow> int \<Rightarrow> monitor \<Rightarrow> result" where
  "log_start os pid m =
     (case fetch os pid of
        Inl e \<Rightarrow> (None, m, start_handler pid e)
      | Inr (name, created) \<Rightarrow>
          (case emit os (ProcessStarted pid name created) of
             (Some e, out) \<Rightarrow> (None, m, out @ start_handler pid e)
           | (None, out) \<Rightarrow>
               (None, m\<lparr>pid_info := AList.update pid name (pid_info m)\<rparr>, out)))"

definition log_end :: "os \<Rightarrow> int \<Rightarrow> monitor \<Rightarrow> result" where
  "log_end os pid m =
     (case emit os (ProcessEnded pid (map_of (pid_info m) pid)) of
        (Some e, out) \<Rightarrow> (Some e, m, out)
      | (None, out) \<Rightarrow> (None, m\<lparr>pid_info := AList.delete pid (pid_info m)\<rparr>, out))"

text \<open>
  The sets of \<^verbatim>\<open>_poll_once\<close> are duplicate-free lists; a set difference keeps the
  order of its left operand. Python leaves the iteration order of a set open, and no
  statement below depends on it.
\<close>

definition list_pids :: "os \<Rightarrow> entry list \<times> int list" where
  "list_pids os =
     (case pids os of
        Inl e \<Rightarrow> ([Log ERROR (''Failed to list PIDs: '' @ str_exn e)], [])
      | Inr ps \<Rightarrow> ([], remdups ps))"

definition current_pids :: "os \<Rightarrow> int list" where
  "current_pids os = snd (list_pids os)"

definition previous_pids :: "monitor \<Rightarrow> int list" where
  "previous_pids m = remdups (map fst (pid_info m))"

definition created_pids :: "os \<Rightarrow> monitor \<Rightarrow> int list" where
  "created_pids os m = filter (\<lambda>pid. pid \<notin> set (previous_pids m)) (current_pids os)"

definition ended_pids :: "os \<Rightarrow> monitor \<Rightarrow> int list" where
  "ended_pids os m = filter (\<lambda>pid. pid \<notin> set (current_pids os)) (previous_pids m)"

text \<open>
  \<^verbatim>\<open>_poll_once\<close> of \<^verbatim>\<open>src/main.py\<close>, which is also, statement for statement, the
  process part of \<^verbatim>\<open>_poll_once\<close> of \<^verbatim>\<open>src/scr/main.py\<close>.
\<close>

definition poll_pids :: "os \<Rightarrow> monitor \<Rightarrow> result" where
  "poll_pids os m =
     and_then (None, m, fst (list_pids os))
       (\<lambda>m1. and_then (for_each (log_start os) (created_pids os m) m1)
          (for_each (log_end os) (ended_pids os m)))"

section \<open>Connection watcher\<close>

text \<open>
  \<^verbatim>\<open>_addr_str\<close>: a falsy address gives \<^verbatim>\<open>None\<close>; an address that unpacks into
  two parts gives \<^verbatim>\<open>f"{ip}:{port}"\<close> (a string of exactly two characters unpacks
  too); anything else gives \<^verbatim>\<open>str(addr)\<close>.
\<close>

fun addr_str :: "addr \<Rightarrow> string option" where
  "addr_str AddrNone = None"
| "addr_str (AddrPair ip port) = Some (ip @ '':'' @ str_int port)"
| "addr_str (AddrStr s) =
     (if s = [] then None
      else if length s = 2 then Some ([s ! 0] @ '':'' @ [s ! 1])
      else Some s)"

text \<open>
  \<^verbatim>\<open>_conn_key\<close>. An \<^verbatim>\<open>sconn\<close> has all six attributes, so the \<^verbatim>\<open>None\<close>
  defaults of \<^verbatim>\<open>hasattr\<close> and \<^verbatim>\<open>getattr\<close> are never taken.
\<close>

definition conn_key :: "sconn \<Rightarrow> conn_key" where
  "conn_key c =
     (sc_family c, sc_type c, addr_str (sc_laddr c), addr_str (sc_raddr c), sc_status c, sc_pid c)"

text \<open>The dictionary literal that \<^verbatim>\<open>_seed_connections\<close> and \<^verbatim>\<open>_poll_connections\<close> store.\<close>

definition conn_details :: "sconn \<Rightarrow> conn_record" where
  "conn_details c =
     \<lparr>info_status = sc_status c,
      info_pid = (case sc_pid c of None \<Rightarrow> ''None'' | Some p \<Rightarrow> str_int p),
      info_laddr = addr_str (sc_laddr c),
      info_raddr = addr_str (sc_raddr c)\<rparr>"

fun seed_conns ::
  "(exn + sconn) list \<Rightarrow> (conn_key \<times> conn_record) list \<Rightarrow> (conn_key \<times> conn_record) list" where
  "seed_conns [] info = info"
| "seed_conns (Inl e # cs) info = seed_conns cs info"
| "seed_conns (Inr c # cs) info = seed_conns cs (AList.update (conn_key c) (conn_details c) info)"

definition seed_connections :: "os \<Rightarrow> monitor \<Rightarrow> result" where
  "seed_connections os m =
     (let conns = (case net_connections os of Inl e \<Rightarrow> [] | Inr cs \<Rightarrow> cs)
      in (None, m\<lparr>conn_info := seed_conns conns (conn_info m)\<rparr>, []))"

text \<open>
  \<^verbatim>\<open>info = self.conn_info.get(key, {})\<close> followed by four \<^verbatim>\<open>info.get(...)\<close>: every
  field is \<^verbatim>\<open>None\<close> when the key has no record.
\<close>

definition log_conn_start :: "os \<Rightarrow> conn_key \<Rightarrow> monitor \<Rightarrow> result" where
  "log_conn_start os key m =
     (let info = map_of (conn_info m) key;
          l = Option.bind info info_laddr;
          r = Option.bind info info_raddr;
          pid = map_option info_pid info;
          status = map_option info_status info
      in case emit os (ConnectionStarted key l r status pid) of (e, out) \<Rightarrow> (e, m, out))"

definition log_conn_end :: "os \<Rightarrow> conn_key \<Rightarrow> monitor \<Rightarrow> result" where
  "log_conn_end os key m =
     (let info = map_of (conn_info m) key;
          l = Option.bind info info_laddr;
          r = Option.bind info info_raddr;
          pid = map_option info_pid info;
          status = map_option info_status info
      in case emit os (ConnectionEnded key l r status pid) of
           (Some e, out) \<Rightarrow> (Some e, m, out)
         | (None, out) \<Rightarrow> (None, m\<lparr>conn_info := AList.delete key (conn_info m)\<rparr>, out))"

definition list_connections :: "os \<Rightarrow> entry list \<times> (exn + sconn) list" where
  "list_connections os =
     (case net_connections os of
        Inl e \<Rightarrow> ([Log DEBUG (''Failed to list network connections: '' @ str_exn e)], [])
      | Inr cs \<Rightarrow> ([], cs))"

text \<open>
  The first loop of \<^verbatim>\<open>_poll_connections\<close>, over \<^verbatim>\<open>current_keys\<close> and
  \<^verbatim>\<open>self.conn_info\<close>: an item whose key cannot be derived is skipped, a key not yet
  in the dictionary is stored at once. The statements that follow the key derivation
  read the same attributes of the \<^verbatim>\<open>sconn\<close> again and build strings from them, so
  the \<^verbatim>\<open>except\<close> clause is entered from \<^verbatim>\<open>_conn_key\<close> only.
\<close>

fun scan ::
  "(exn + sconn) list \<Rightarrow> conn_key list \<times> (conn_key \<times> conn_record) list
     \<Rightarrow> conn_key list \<times> (conn_key \<times> conn_record) list" where
  "scan [] (keys, info) = (keys, info)"
| "scan (Inl e # cs) (keys, info) = scan cs (keys, info)"
| "scan (Inr c # cs) (keys, info) =
     (let k = conn_key c
      in scan cs (List.insert k keys,
                  if map_of info k = None then AList.update k (conn_details c) info else info))"

text \<open>
  \<^verbatim>\<open>_poll_connections\<close>. \<^verbatim>\<open>previous_keys\<close> is read from the dictionary after the
  first loop has written to it, as in the source.
\<close>

definition poll_connections :: "os \<Rightarrow> monitor \<Rightarrow> result" where
  "poll_connections os m =
     (let (out0, conns) = list_connections os;
          (current_keys, info) = scan conns ([], conn_info m);
          previous_keys = remdups (map fst info);
          created = filter (\<lambda>k. k \<notin> set previous_keys) current_keys;
          ended = filter (\<lambda>k. k \<notin> set current_keys) previous_keys
      in and_then (None, m\<lparr>conn_info := info\<rparr>, out0)
           (\<lambda>m1. and_then (for_each (log_conn_start os) created m1)
              (for_each (log_conn_end os) ended)))"

section \<open>The poll cycle, construction and the loop\<close>

text \<open>
  \<^verbatim>\<open>_poll_once\<close> of \<^verbatim>\<open>src/scr/main.py\<close>: the process part, then the connection
  part inside \<^verbatim>\<open>try: ... except Exception: pass\<close>.
\<close>

definition poll_once :: "os \<Rightarrow> monitor \<Rightarrow> result" where
  "poll_once os m =
     and_then (poll_pids os m)
       (\<lambda>m1. if monitor_network m1
              then (case poll_connections os m1 of (e, m2, out) \<Rightarrow> (None, m2, out))
              else (None, m1, []))"

text \<open>
  The seeding loop of \<^verbatim>\<open>__init__\<close>: \<^verbatim>\<open>NoSuchProcess\<close> skips the pid, any other
  exception leaves the loop.
\<close>

fun seed_pids :: "os \<Rightarrow> int list \<Rightarrow> (int \<times> string) list \<Rightarrow> exn + (int \<times> string) list" where
  "seed_pids os [] info = Inr info"
| "seed_pids os (pid # ps) info =
     (case Process os pid of
        Inl (NoSuchProcess s) \<Rightarrow> seed_pids os ps info
      | Inl (OtherException s) \<Rightarrow> Inl (OtherException s)
      | Inr proc \<Rightarrow>
          (case proc_name proc of
             Inl (NoSuchProcess s) \<Rightarrow> seed_pids os ps info
           | Inl (OtherException s) \<Rightarrow> Inl (OtherException s)
           | Inr name \<Rightarrow> seed_pids os ps (AList.update pid name info)))"

text \<open>\<^verbatim>\<open>ProcessMonitor.__init__\<close> of \<^verbatim>\<open>src/scr/main.py\<close>: the monitor and what it wrote.\<close>

definition init :: "os \<Rightarrow> monitor \<times> entry list" where
  "init os =
     (let m0 = \<lparr>running = False, pid_info = [], monitor_network = True, conn_info = []\<rparr>;
          m1 = m0\<lparr>pid_info :=
                 (case pids os of
                    Inl e \<Rightarrow> []
                  | Inr ps \<Rightarrow> (case seed_pids os ps [] of Inl e \<Rightarrow> [] | Inr info \<Rightarrow> info))\<rparr>
      in if monitor_network m1
         then (case seed_connections os m1 of
                 (Some e, m2, out) \<Rightarrow> (m2\<lparr>conn_info := []\<rparr>, out)
               | (None, m2, out) \<Rightarrow> (m2, out))
         else (m1, []))"

text \<open>\<^verbatim>\<open>__init__\<close> of \<^verbatim>\<open>src/main.py\<close>, which has no connection watcher.\<close>

definition init_pids :: "os \<Rightarrow> monitor \<times> entry list" where
  "init_pids os =
     (\<lparr>running = False,
       pid_info =
         (case pids os of
            Inl e \<Rightarrow> []
          | Inr ps \<Rightarrow> (case seed_pids os ps [] of Inl e \<Rightarrow> [] | Inr info \<Rightarrow> info)),
       monitor_network = False, conn_info = []\<rparr>, [])"

definition stop :: "os \<Rightarrow> monitor \<Rightarrow> result" where
  "stop os m =
     (if running m
      then (case print_raises os ''Stopping ProcessMonitor...'' of
              Some e \<Rightarrow> (Some e, m\<lparr>running := False\<rparr>, [])
            | None \<Rightarrow>
                (None, m\<lparr>running := False\<rparr>,
                 [Print ''Stopping ProcessMonitor...'', Log INFO ''ProcessMonitor stopped by user'']))
      else (None, m, []))"

text \<open>
  How \<^verbatim>\<open>start\<close> is left: not yet (the observed cycles are used up and the loop is
  still running), by the loop condition, by \<^verbatim>\<open>KeyboardInterrupt\<close> and \<^verbatim>\<open>stop\<close>,
  or by an exception that escapes \<^verbatim>\<open>start\<close>.
\<close>

datatype exit = Pending | Returned | Stopped | Crashed exn

text \<open>
  The \<^verbatim>\<open>while self.running\<close> loop of \<^verbatim>\<open>start\<close> with its
  \<^verbatim>\<open>except KeyboardInterrupt\<close> clause, run over the hosts of its successive cycles.
\<close>

fun loop :: "os list \<Rightarrow> monitor \<Rightarrow> exit \<times> monitor \<times> entry list" where
  "loop [] m = (if running m then Pending else Returned, m, [])"
| "loop (os # rest) m =
     (if \<not> running m then (Returned, m, [])
      else (case poll_once os m of
              (Some e, m1, out) \<Rightarrow> (Crashed e, m1, out)
            | (None, m1, out) \<Rightarrow>
                if interrupted os
                then (case stop os m1 of
                        (r, m2, out2) \<Rightarrow>
                          ((case r of None \<Rightarrow> Stopped | Some e \<Rightarrow> Crashed e), m2,
                           out @ [Log INFO ''ProcessMonitor stopping due to KeyboardInterrupt'']
                             @ out2))
                else (case loop rest m1 of (x, m2, out2) \<Rightarrow> (x, m2, out @ out2))))"

text \<open>Reading what was written.\<close>

fun logged :: "entry list \<Rightarrow> event list" where
  "logged [] = []"
| "logged (LogEvent ev # out) = ev # logged out"
| "logged (x # out) = logged out"

fun printed :: "entry list \<Rightarrow> event list" where
  "printed [] = []"
| "printed (PrintEvent ev # out) = ev # printed out"
| "printed (x # out) = printed out"

fun diagnostics :: "level \<Rightarrow> entry list \<Rightarrow> string list" where
  "diagnostics lv [] = []"
| "diagnostics lv (Log lv' s # out) = (if lv' = lv then s # diagnostics lv out else diagnostics lv out)"
| "diagnostics lv (x # out) = diagnostics lv out"

section \<open>Vocabulary of the statements\<close>

text \<open>
  The event sink works for the whole cycle: no \<^verbatim>\<open>print\<close> raises. The specification
  takes this for granted (a failing sink is outside the core).
\<close>

definition sink_ok :: "os \<Rightarrow> bool" where
  "sink_ok os \<longleftrightarrow> (\<forall>msg. print_raises os msg = None)"

text \<open>The detail fetch of \<^verbatim>\<open>_log_start\<close> succeeds for a pid.\<close>

definition fetch_ok :: "os \<Rightarrow> int \<Rightarrow> bool" where
  "fetch_ok os pid = (case fetch os pid of Inl e \<Rightarrow> False | Inr x \<Rightarrow> True)"

text \<open>
  The identities of the connection snapshot of a cycle: the keys of the enumerated items
  whose key can be derived; none when the enumeration fails.
\<close>

fun readable :: "(exn + sconn) list \<Rightarrow> sconn list" where
  "readable [] = []"
| "readable (Inl e # cs) = readable cs"
| "readable (Inr c # cs) = c # readable cs"

definition snapshot_keys :: "os \<Rightarrow> conn_key list" where
  "snapshot_keys os = map conn_key (readable (snd (list_connections os)))"

text \<open>Which identity an event is about.\<close>

fun started_pid :: "int \<Rightarrow> event \<Rightarrow> bool" where
  "started_pid x (ProcessStarted pid name ctime) = (pid = x)"
| "started_pid x ev = False"

fun ended_pid :: "int \<Rightarrow> event \<Rightarrow> bool" where
  "ended_pid x (ProcessEnded pid name) = (pid = x)"
| "ended_pid x ev = False"

fun started_conn :: "conn_key \<Rightarrow> event \<Rightarrow> bool" where
  "started_conn k (ConnectionStarted key l r status pid) = (key = k)"
| "started_conn k ev = False"

fun ended_conn :: "conn_key \<Rightarrow> event \<Rightarrow> bool" where
  "ended_conn k (ConnectionEnded key l r status pid) = (key = k)"
| "ended_conn k ev = False"

fun process_event :: "event \<Rightarrow> bool" where
  "process_event (ProcessStarted pid name ctime) = True"
| "process_event (ProcessEnded pid name) = True"
| "process_event ev = False"

section \<open>Closed forms used in the proofs\<close>

text \<open>What one \<^verbatim>\<open>_log_start\<close> logs, and whether it runs to its last statement.\<close>

definition start_events :: "os \<Rightarrow> int \<Rightarrow> event list" where
  "start_events os pid =
     (case fetch os pid of Inl e \<Rightarrow> [] | Inr (name, ctime) \<Rightarrow> [ProcessStarted pid name ctime])"

definition starts :: "os \<Rightarrow> int \<Rightarrow> bool" where
  "starts os pid =
     (case fetch os pid of
        Inl e \<Rightarrow> False
      | Inr (name, ctime) \<Rightarrow> print_raises os (message (ProcessStarted pid name ctime)) = None)"

text \<open>The event of \<^verbatim>\<open>_log_end\<close> and of \<^verbatim>\<open>_log_conn_end\<close> for a given dictionary.\<close>

definition end_event :: "monitor \<Rightarrow> int \<Rightarrow> event" where
  "end_event m pid = ProcessEnded pid (map_of (pid_info m) pid)"

definition conn_end_event :: "(conn_key \<times> conn_record) list \<Rightarrow> conn_key \<Rightarrow> event" where
  "conn_end_event al key =
     (let info = map_of al key
      in ConnectionEnded key (Option.bind info info_laddr) (Option.bind info info_raddr)
           (map_option info_status info) (map_option info_pid info))"

text \<open>The monitor between the two loops of the process part and of the connection part.\<close>

definition after_starts :: "os \<Rightarrow> monitor \<Rightarrow> monitor" where
  "after_starts os m = fst (snd (for_each (log_start os) (created_pids os m) m))"

definition after_scan :: "os \<Rightarrow> monitor \<Rightarrow> monitor" where
  "after_scan os m = m\<lparr>conn_info := snd (scan (snd (list_connections os)) ([], conn_info m))\<rparr>"

text \<open>The value of \<^verbatim>\<open>ended\<close> in \<^verbatim>\<open>_poll_connections\<close>.\<close>

definition ended_keys :: "os \<Rightarrow> (conn_key \<times> conn_record) list \<Rightarrow> conn_key list" where
  "ended_keys os al =
     filter (\<lambda>k. k \<notin> set (fst (scan (snd (list_connections os)) ([], al))))
       (remdups (map fst (snd (scan (snd (list_connections os)) ([], al)))))"

section \<open>Concrete hosts and monitors for the instances\<close>

text \<open>
  The scenario of the specification, a little larger: at start the host runs processes
  100 (alpha) and 101 (gamma), with one established connection of process 100 and one
  listening socket. Later 101 is gone, 200 (beta) has appeared, and the established
  connection has moved to \<^verbatim>\<open>CLOSE_WAIT\<close>.
\<close>

definition ex_process :: "string \<Rightarrow> exn + process" where
  "ex_process name = Inr \<lparr>proc_name = Inr name, proc_create_time = Inr ''2026-01-01 00:00:00''\<rparr>"

definition ex_procs :: "int \<Rightarrow> exn + process" where
  "ex_procs pid =
     (if pid = 100 then ex_process ''alpha''
      else if pid = 101 then ex_process ''gamma''
      else if pid = 200 then ex_process ''beta''
      else Inl (NoSuchProcess ''process no longer exists''))"

definition ex_conn :: "string \<Rightarrow> sconn" where
  "ex_conn status =
     \<lparr>sc_family = 2, sc_type = 1, sc_laddr = AddrPair ''10.0.0.5'' 443,
      sc_raddr = AddrPair ''10.0.0.9'' 5000, sc_status = status, sc_pid = Some 100\<rparr>"

text \<open>Its identity while established, and after the change of status.\<close>

definition ex_K1 :: conn_key where
  "ex_K1 = conn_key (ex_conn ''ESTABLISHED'')"

definition ex_K2 :: conn_key where
  "ex_K2 = conn_key (ex_conn ''CLOSE_WAIT'')"

definition ex_listen :: sconn where
  "ex_listen =
     \<lparr>sc_family = 2, sc_type = 1, sc_laddr = AddrPair ''0.0.0.0'' 22,
      sc_raddr = AddrNone, sc_status = ''LISTEN'', sc_pid = None\<rparr>"

definition ex_os_seed :: os where
  "ex_os_seed =
     \<lparr>pids = Inr [100, 101], Process = ex_procs,
      net_connections = Inr [Inr (ex_conn ''ESTABLISHED''), Inr ex_listen],
      print_raises = (\<lambda>msg. None), interrupted = False\<rparr>"

definition ex_os_next :: os where
  "ex_os_next =
     \<lparr>pids = Inr [100, 200], Process = ex_procs,
      net_connections = Inr [Inr (ex_conn ''CLOSE_WAIT''), Inr ex_listen],
      print_raises = (\<lambda>msg. None), interrupted = False\<rparr>"

text \<open>The monitor constructed on the first host and then started.\<close>

definition ex_monitor :: monitor where
  "ex_monitor = (fst (init ex_os_seed))\<lparr>running := True\<rparr>"

text \<open>A host on which pid 300 is listed but has vanished when its details are read.\<close>

definition ex_os_vanishing :: os where
  "ex_os_vanishing =
     \<lparr>pids = Inr [100, 101, 300], Process = ex_procs,
      net_connections = Inr [Inr (ex_conn ''CLOSE_WAIT''), Inr ex_listen],
      print_raises = (\<lambda>msg. None), interrupted = False\<rparr>"

text \<open>The same host one cycle later, when pid 300 can be read.\<close>

definition ex_os_readable :: os where
  "ex_os_readable =
     \<lparr>pids = Inr [100, 101, 300],
      Process = (\<lambda>pid. if pid = 300 then ex_process ''delta'' else ex_procs pid),
      net_connections = Inr [Inr (ex_conn ''CLOSE_WAIT''), Inr ex_listen],
      print_raises = (\<lambda>msg. None), interrupted = False\<rparr>"

text \<open>Hosts on which both enumerations fail, and on which only the connection one does.\<close>

definition ex_os_down :: os where
  "ex_os_down =
     \<lparr>pids = Inl (OtherException ''permission denied''), Process = ex_procs,
      net_connections = Inl (OtherException ''access denied''),
      print_raises = (\<lambda>msg. None), interrupted = False\<rparr>"

definition ex_os_net_down :: os where
  "ex_os_net_down =
     \<lparr>pids = Inr [100, 101], Process = ex_procs,
      net_connections = Inl (OtherException ''access denied''),
      print_raises = (\<lambda>msg. None), interrupted = False\<rparr>"

text \<open>
  A host whose standard output refuses every line that starts with \<^verbatim>\<open>Connection\<close>,
  while the processes are unchanged and the established connection is gone.
\<close>

definition ex_os_broken_pipe :: os where
  "ex_os_broken_pipe =
     \<lparr>pids = Inr [100, 101], Process = ex_procs,
      net_connections = Inr [Inr ex_listen],
      print_raises =
        (\<lambda>msg. if take 10 msg = ''Connection'' then Some (OtherException ''broken pipe'') else None),
      interrupted = False\<rparr>"

text \<open>
  A monitor that tracks exactly one connection, established, and a host that lists the
  same connection in \<^verbatim>\<open>CLOSE_WAIT\<close>.
\<close>

definition ex_single :: monitor where
  "ex_single =
     \<lparr>running = True, pid_info = [], monitor_network = True,
      conn_info = [(ex_K1, conn_details (ex_conn ''ESTABLISHED''))]\<rparr>"

definition ex_os_close_wait :: os where
  "ex_os_close_wait =
     \<lparr>pids = Inr [], Process = ex_procs,
      net_connections = Inr [Inr (ex_conn ''CLOSE_WAIT'')],
      print_raises = (\<lambda>msg. None), interrupted = False\<rparr>"

declare message.simps [simp del]

declare for_each.simps(2) [simp del]

section \<open>Sequencing and reading\<close>

lemma and_then_None: "and_then (None, m, out) f = (case f m of (r', m', out') \<Rightarrow> (r', m', out @ out'))"
  by (simp add: and_then_def)

lemma and_then_Some: "and_then (Some e, m, out) f = (Some e, m, out)"
  by (simp add: and_then_def)

lemma logged_append: "logged (xs @ ys) = logged xs @ logged ys"
  by (induction xs rule: logged.induct) simp_all

lemma printed_append: "printed (xs @ ys) = printed xs @ printed ys"
  by (induction xs rule: printed.induct) simp_all

lemma diagnostics_append: "diagnostics lv (xs @ ys) = diagnostics lv xs @ diagnostics lv ys"
  by (induction lv xs rule: diagnostics.induct) simp_all

lemma emit_ok: "sink_ok os \<Longrightarrow> emit os ev = (None, [LogEvent ev, PrintEvent ev])"
  by (simp add: emit_def sink_ok_def)

section \<open>Start-logging and its loop\<close>

lemma start_handler_quiet:
  "logged (start_handler pid e) = []"
  "printed (start_handler pid e) = []"
  "diagnostics DEBUG (start_handler pid e) = []"
  by (cases e; simp)+

lemma log_start_None: "fst (log_start os pid m) = None"
  by (simp add: log_start_def emit_def split: sum.splits prod.splits option.splits)

lemma log_start_logged: "logged (snd (snd (log_start os pid m))) = start_events os pid"
  by (cases "fetch os pid")
     (auto simp: log_start_def start_events_def emit_def logged_append
           simp: start_handler_quiet split: prod.splits option.splits)

lemma log_start_printed:
  "printed (snd (snd (log_start os pid m))) = (if starts os pid then start_events os pid else [])"
  by (cases "fetch os pid")
     (auto simp: log_start_def start_events_def starts_def emit_def printed_append
           simp: start_handler_quiet split: prod.splits option.splits)

lemma log_start_pid_info:
  "pid_info (fst (snd (log_start os pid m))) =
     (if starts os pid then AList.update pid (fst (projr (fetch os pid))) (pid_info m) else pid_info m)"
  by (cases "fetch os pid")
     (auto simp: log_start_def starts_def emit_def split: prod.splits option.splits)

lemma log_start_other:
  "conn_info (fst (snd (log_start os pid m))) = conn_info m"
  "running (fst (snd (log_start os pid m))) = running m"
  "monitor_network (fst (snd (log_start os pid m))) = monitor_network m"
  by (cases "fetch os pid"; auto simp: log_start_def emit_def split: prod.splits option.splits)+

lemma log_start_debug: "diagnostics DEBUG (snd (snd (log_start os pid m))) = []"
  by (cases "fetch os pid")
     (auto simp: log_start_def emit_def diagnostics_append
           simp: start_handler_quiet split: prod.splits option.splits)

lemma for_each_log_start_Cons:
  "for_each (log_start os) (p # ps) m =
     (fst (for_each (log_start os) ps (fst (snd (log_start os p m)))),
      fst (snd (for_each (log_start os) ps (fst (snd (log_start os p m))))),
      snd (snd (log_start os p m)) @ snd (snd (for_each (log_start os) ps (fst (snd (log_start os p m))))))"
  using log_start_None[of os p m]
  by (cases "log_start os p m") (simp add: and_then_def for_each.simps(2) case_prod_beta)

lemma start_loop_None: "fst (for_each (log_start os) ps m) = None"
  by (induction ps arbitrary: m) (simp_all add: for_each_log_start_Cons)

lemma start_loop_logged:
  "logged (snd (snd (for_each (log_start os) ps m))) = concat (map (start_events os) ps)"
  by (induction ps arbitrary: m)
     (simp_all add: for_each_log_start_Cons logged_append log_start_logged)

lemma start_loop_printed:
  "printed (snd (snd (for_each (log_start os) ps m))) =
     concat (map (start_events os) (filter (starts os) ps))"
  by (induction ps arbitrary: m)
     (simp_all add: for_each_log_start_Cons printed_append log_start_printed)

lemma start_loop_debug: "diagnostics DEBUG (snd (snd (for_each (log_start os) ps m))) = []"
  by (induction ps arbitrary: m)
     (simp_all add: for_each_log_start_Cons diagnostics_append log_start_debug)

lemma start_loop_other:
  "conn_info (fst (snd (for_each (log_start os) ps m))) = conn_info m"
  "running (fst (snd (for_each (log_start os) ps m))) = running m"
  "monitor_network (fst (snd (for_each (log_start os) ps m))) = monitor_network m"
  by (induction ps arbitrary: m; simp add: for_each_log_start_Cons log_start_other)+

lemma start_loop_keys:
  "fst ` set (pid_info (fst (snd (for_each (log_start os) ps m)))) =
     fst ` set (pid_info m) \<union> {p \<in> set ps. starts os p}"
proof (induction ps arbitrary: m)
  case Nil
  show ?case by simp
next
  case (Cons p ps)
  show ?case
    unfolding for_each_log_start_Cons fst_conv snd_conv Cons.IH log_start_pid_info
    by (auto simp: dom_update)
qed

lemma start_loop_map_of:
  "q \<notin> set ps \<Longrightarrow>
     map_of (pid_info (fst (snd (for_each (log_start os) ps m)))) q = map_of (pid_info m) q"
proof (induction ps arbitrary: m)
  case Nil
  show ?case by simp
next
  case (Cons p ps)
  then show ?case
    unfolding for_each_log_start_Cons fst_conv snd_conv
    by (simp add: log_start_pid_info update_conv')
qed

section \<open>End-logging and its loop\<close>

lemma log_end_unfold:
  "log_end os p m =
     (case print_raises os (message (end_event m p)) of
        None \<Rightarrow> (None, m\<lparr>pid_info := AList.delete p (pid_info m)\<rparr>,
                 [LogEvent (end_event m p), PrintEvent (end_event m p)])
      | Some e \<Rightarrow> (Some e, m, [LogEvent (end_event m p)]))"
  by (simp add: log_end_def emit_def end_event_def split: option.splits)

lemma end_event_delete: "q \<noteq> p \<Longrightarrow> end_event (m\<lparr>pid_info := AList.delete p (pid_info m)\<rparr>) q = end_event m q"
  by (simp add: end_event_def delete_conv')

lemma end_loop_Cons:
  "for_each (log_end os) (p # ps) m =
     (case print_raises os (message (end_event m p)) of
        None \<Rightarrow>
          (fst (for_each (log_end os) ps (m\<lparr>pid_info := AList.delete p (pid_info m)\<rparr>)),
           fst (snd (for_each (log_end os) ps (m\<lparr>pid_info := AList.delete p (pid_info m)\<rparr>))),
           [LogEvent (end_event m p), PrintEvent (end_event m p)]
             @ snd (snd (for_each (log_end os) ps (m\<lparr>pid_info := AList.delete p (pid_info m)\<rparr>))))
      | Some e \<Rightarrow> (Some e, m, [LogEvent (end_event m p)]))"
  by (simp add: for_each.simps(2) log_end_unfold and_then_def case_prod_beta split: option.splits)

lemma end_loop_logged_subset:
  "distinct ps \<Longrightarrow> set (logged (snd (snd (for_each (log_end os) ps m)))) \<subseteq> end_event m ` set ps"
proof (induction ps arbitrary: m)
  case Nil
  show ?case by simp
next
  case (Cons p ps)
  let ?m = "m\<lparr>pid_info := AList.delete p (pid_info m)\<rparr>"
  from Cons.prems have d: "distinct ps" and np: "p \<notin> set ps" by simp_all
  have "end_event ?m ` set ps = end_event m ` set ps"
    using np by (intro image_cong refl end_event_delete) auto
  with Cons.IH[OF d, of ?m]
  have "set (logged (snd (snd (for_each (log_end os) ps ?m)))) \<subseteq> end_event m ` set ps"
    by simp
  then show ?case
    by (auto simp: end_loop_Cons logged_append split: option.splits)
qed

lemma end_loop_printed_subset:
  "distinct ps \<Longrightarrow> set (printed (snd (snd (for_each (log_end os) ps m)))) \<subseteq> end_event m ` set ps"
proof (induction ps arbitrary: m)
  case Nil
  show ?case by simp
next
  case (Cons p ps)
  let ?m = "m\<lparr>pid_info := AList.delete p (pid_info m)\<rparr>"
  from Cons.prems have d: "distinct ps" and np: "p \<notin> set ps" by simp_all
  have "end_event ?m ` set ps = end_event m ` set ps"
    using np by (intro image_cong refl end_event_delete) auto
  with Cons.IH[OF d, of ?m]
  have "set (printed (snd (snd (for_each (log_end os) ps ?m)))) \<subseteq> end_event m ` set ps"
    by simp
  then show ?case
    by (auto simp: end_loop_Cons printed_append split: option.splits)
qed

lemma end_loop_quiet: "diagnostics lv (snd (snd (for_each (log_end os) ps m))) = []"
  by (induction ps arbitrary: m)
     (simp_all add: end_loop_Cons diagnostics_append split: option.splits)

lemma end_loop_other:
  "conn_info (fst (snd (for_each (log_end os) ps m))) = conn_info m"
  "running (fst (snd (for_each (log_end os) ps m))) = running m"
  "monitor_network (fst (snd (for_each (log_end os) ps m))) = monitor_network m"
  by (induction ps arbitrary: m; simp add: end_loop_Cons split: option.splits)+

lemma end_loop_map_of:
  "map_of (pid_info (fst (snd (for_each (log_end os) ps m)))) q = None \<or>
   map_of (pid_info (fst (snd (for_each (log_end os) ps m)))) q = map_of (pid_info m) q"
proof (induction ps arbitrary: m)
  case Nil
  show ?case by simp
next
  case (Cons p ps)
  show ?case
    using Cons.IH[of "m\<lparr>pid_info := AList.delete p (pid_info m)\<rparr>"]
    by (cases "q = p") (auto simp: end_loop_Cons delete_conv' split: option.splits)
qed

lemma end_loop_map_of_other:
  "q \<notin> set ps \<Longrightarrow>
     map_of (pid_info (fst (snd (for_each (log_end os) ps m)))) q = map_of (pid_info m) q"
  by (induction ps arbitrary: m) (auto simp: end_loop_Cons delete_conv' split: option.splits)

lemma end_loop_ok_None: "sink_ok os \<Longrightarrow> fst (for_each (log_end os) ps m) = None"
  by (induction ps arbitrary: m) (simp_all add: end_loop_Cons sink_ok_def)

lemma end_loop_ok_keys:
  "sink_ok os \<Longrightarrow>
     fst ` set (pid_info (fst (snd (for_each (log_end os) ps m)))) = fst ` set (pid_info m) - set ps"
proof (induction ps arbitrary: m)
  case Nil
  show ?case by simp
next
  case (Cons p ps)
  have "fst ` set (AList.delete p (pid_info m)) = fst ` set (pid_info m) - {p}"
    by (auto simp: AList.delete_eq)
  with Cons show ?case
    by (auto simp: end_loop_Cons sink_ok_def)
qed

lemma end_loop_ok_logged:
  "sink_ok os \<Longrightarrow> distinct ps \<Longrightarrow>
     logged (snd (snd (for_each (log_end os) ps m))) = map (end_event m) ps"
proof (induction ps arbitrary: m)
  case Nil
  show ?case by simp
next
  case (Cons p ps)
  let ?m = "m\<lparr>pid_info := AList.delete p (pid_info m)\<rparr>"
  from Cons.prems have d: "distinct ps" and np: "p \<notin> set ps" by simp_all
  have "map (end_event ?m) ps = map (end_event m) ps"
    using np by (intro map_cong refl end_event_delete) auto
  with Cons.IH[OF Cons.prems(1) d, of ?m] Cons.prems(1) show ?case
    by (simp add: end_loop_Cons sink_ok_def)
qed

lemma end_loop_ok_printed:
  "sink_ok os \<Longrightarrow> distinct ps \<Longrightarrow>
     printed (snd (snd (for_each (log_end os) ps m))) = map (end_event m) ps"
proof (induction ps arbitrary: m)
  case Nil
  show ?case by simp
next
  case (Cons p ps)
  let ?m = "m\<lparr>pid_info := AList.delete p (pid_info m)\<rparr>"
  from Cons.prems have d: "distinct ps" and np: "p \<notin> set ps" by simp_all
  have "map (end_event ?m) ps = map (end_event m) ps"
    using np by (intro map_cong refl end_event_delete) auto
  with Cons.IH[OF Cons.prems(1) d, of ?m] Cons.prems(1) show ?case
    by (simp add: end_loop_Cons sink_ok_def)
qed

section \<open>The process part of a cycle\<close>

lemma set_previous_pids: "set (previous_pids m) = fst ` set (pid_info m)"
  by (simp add: previous_pids_def)

lemma distinct_current_pids: "distinct (current_pids os)"
  by (simp add: current_pids_def list_pids_def split: sum.splits)

lemma distinct_created_pids: "distinct (created_pids os m)"
  by (simp add: created_pids_def distinct_current_pids)

lemma distinct_ended_pids: "distinct (ended_pids os m)"
  by (simp add: ended_pids_def previous_pids_def)

lemma set_created_pids: "set (created_pids os m) = set (current_pids os) - fst ` set (pid_info m)"
  by (auto simp: created_pids_def set_previous_pids)

lemma set_ended_pids: "set (ended_pids os m) = fst ` set (pid_info m) - set (current_pids os)"
  by (auto simp: ended_pids_def set_previous_pids)

lemma poll_pids_unfold:
  "poll_pids os m =
     (fst (for_each (log_end os) (ended_pids os m) (after_starts os m)),
      fst (snd (for_each (log_end os) (ended_pids os m) (after_starts os m))),
      fst (list_pids os) @ snd (snd (for_each (log_start os) (created_pids os m) m))
        @ snd (snd (for_each (log_end os) (ended_pids os m) (after_starts os m))))"
  using start_loop_None[of os "created_pids os m" m]
  by (cases "for_each (log_start os) (created_pids os m) m")
     (simp add: poll_pids_def and_then_def after_starts_def case_prod_beta)

lemma list_pids_quiet:
  "logged (fst (list_pids os)) = []" "printed (fst (list_pids os)) = []"
  "diagnostics DEBUG (fst (list_pids os)) = []"
  by (simp_all add: list_pids_def split: sum.splits)

lemma end_event_after_starts:
  "q \<in> set (ended_pids os m) \<Longrightarrow> end_event (after_starts os m) q = end_event m q"
  by (simp add: end_event_def after_starts_def start_loop_map_of set_created_pids set_ended_pids)

lemma poll_pids_other:
  "conn_info (fst (snd (poll_pids os m))) = conn_info m"
  "running (fst (snd (poll_pids os m))) = running m"
  "monitor_network (fst (snd (poll_pids os m))) = monitor_network m"
  by (simp_all add: poll_pids_unfold end_loop_other after_starts_def start_loop_other)

lemma poll_pids_debug: "diagnostics DEBUG (snd (snd (poll_pids os m))) = []"
  by (simp add: poll_pids_unfold diagnostics_append list_pids_quiet start_loop_debug end_loop_quiet)

lemma poll_pids_logged_subset:
  "set (logged (snd (snd (poll_pids os m)))) \<subseteq>
     set (concat (map (start_events os) (created_pids os m))) \<union> end_event m ` set (ended_pids os m)"
proof -
  have "set (logged (snd (snd (for_each (log_end os) (ended_pids os m) (after_starts os m)))))
          \<subseteq> end_event (after_starts os m) ` set (ended_pids os m)"
    by (rule end_loop_logged_subset[OF distinct_ended_pids])
  also have "\<dots> = end_event m ` set (ended_pids os m)"
    by (intro image_cong refl end_event_after_starts)
  finally show ?thesis
    by (auto simp: poll_pids_unfold logged_append list_pids_quiet start_loop_logged)
qed

lemma poll_pids_printed_subset:
  "set (printed (snd (snd (poll_pids os m)))) \<subseteq>
     set (concat (map (start_events os) (created_pids os m))) \<union> end_event m ` set (ended_pids os m)"
proof -
  have "set (printed (snd (snd (for_each (log_end os) (ended_pids os m) (after_starts os m)))))
          \<subseteq> end_event (after_starts os m) ` set (ended_pids os m)"
    by (rule end_loop_printed_subset[OF distinct_ended_pids])
  also have "\<dots> = end_event m ` set (ended_pids os m)"
    by (intro image_cong refl end_event_after_starts)
  finally show ?thesis
    by (auto simp: poll_pids_unfold printed_append list_pids_quiet start_loop_printed)
qed

lemma poll_pids_map_of:
  "q \<in> fst ` set (pid_info m) \<Longrightarrow>
     map_of (pid_info (fst (snd (poll_pids os m)))) q = None \<or>
     map_of (pid_info (fst (snd (poll_pids os m)))) q = map_of (pid_info m) q"
  using end_loop_map_of[of os "ended_pids os m" "after_starts os m" q]
  by (simp add: poll_pids_unfold after_starts_def start_loop_map_of set_created_pids)

lemma poll_pids_ok_None: "sink_ok os \<Longrightarrow> fst (poll_pids os m) = None"
  by (simp add: poll_pids_unfold end_loop_ok_None)

lemma starts_ok: "sink_ok os \<Longrightarrow> starts os p \<longleftrightarrow> fetch_ok os p"
  by (cases "fetch os p") (auto simp: starts_def sink_ok_def fetch_ok_def)

lemma poll_pids_ok_keys:
  "sink_ok os \<Longrightarrow>
     fst ` set (pid_info (fst (snd (poll_pids os m)))) =
       {p \<in> set (current_pids os). p \<in> fst ` set (pid_info m) \<or> fetch_ok os p}"
  by (auto simp: poll_pids_unfold end_loop_ok_keys after_starts_def start_loop_keys
                 set_created_pids set_ended_pids starts_ok)

lemma poll_pids_ok_logged:
  "sink_ok os \<Longrightarrow>
     logged (snd (snd (poll_pids os m))) =
       concat (map (start_events os) (created_pids os m)) @ map (end_event m) (ended_pids os m)"
proof -
  assume ok: "sink_ok os"
  have "map (end_event (after_starts os m)) (ended_pids os m) = map (end_event m) (ended_pids os m)"
    by (intro map_cong refl end_event_after_starts)
  then show ?thesis
    by (simp add: poll_pids_unfold logged_append list_pids_quiet start_loop_logged
                  end_loop_ok_logged[OF ok distinct_ended_pids])
qed

lemma poll_pids_ok_printed:
  "sink_ok os \<Longrightarrow>
     printed (snd (snd (poll_pids os m))) = logged (snd (snd (poll_pids os m)))"
proof -
  assume ok: "sink_ok os"
  have "filter (starts os) (created_pids os m) = filter (fetch_ok os) (created_pids os m)"
    using starts_ok[OF ok] by (intro filter_cong refl) simp
  moreover have "concat (map (start_events os) (filter (fetch_ok os) ps)) =
                 concat (map (start_events os) ps)" for ps
    by (induction ps) (auto simp: start_events_def fetch_ok_def split: sum.splits)
  ultimately show ?thesis
    by (simp add: poll_pids_unfold logged_append printed_append list_pids_quiet start_loop_logged
                  start_loop_printed end_loop_ok_logged[OF ok distinct_ended_pids]
                  end_loop_ok_printed[OF ok distinct_ended_pids])
qed

section \<open>The connection part of a cycle\<close>

lemma scan_keys:
  "set (fst (scan cs (ks, info))) = set ks \<union> conn_key ` set (readable cs)"
  by (induction cs "(ks, info)" arbitrary: ks info rule: scan.induct) (auto simp: Let_def)

lemma scan_distinct: "distinct ks \<Longrightarrow> distinct (fst (scan cs (ks, info)))"
  by (induction cs "(ks, info)" arbitrary: ks info rule: scan.induct) (auto simp: Let_def)

lemma scan_dom:
  "fst ` set (snd (scan cs (ks, info))) = fst ` set info \<union> conn_key ` set (readable cs)"
proof (induction cs "(ks, info)" arbitrary: ks info rule: scan.induct)
  case (3 c cs ks info)
  have "map_of info (conn_key c) \<noteq> None \<Longrightarrow> conn_key c \<in> fst ` set info"
    by (simp add: map_of_eq_None_iff)
  with 3 show ?case
    by (auto simp: Let_def dom_update)
qed simp_all

lemma scan_keeps:
  "map_of info k = Some v \<Longrightarrow> map_of (snd (scan cs (ks, info))) k = Some v"
proof (induction cs "(ks, info)" arbitrary: ks info rule: scan.induct)
  case (3 c cs ks info)
  then show ?case
    by (cases "k = conn_key c") (simp_all add: Let_def update_conv')
qed simp_all

lemma scan_map_of_other:
  "k \<notin> conn_key ` set (readable cs) \<Longrightarrow> map_of (snd (scan cs (ks, info))) k = map_of info k"
  by (induction cs "(ks, info)" arbitrary: ks info rule: scan.induct)
     (auto simp: Let_def update_conv')

lemma log_conn_end_unfold:
  "log_conn_end os k m =
     (case print_raises os (message (conn_end_event (conn_info m) k)) of
        None \<Rightarrow> (None, m\<lparr>conn_info := AList.delete k (conn_info m)\<rparr>,
                 [LogEvent (conn_end_event (conn_info m) k), PrintEvent (conn_end_event (conn_info m) k)])
      | Some e \<Rightarrow> (Some e, m, [LogEvent (conn_end_event (conn_info m) k)]))"
  by (simp add: log_conn_end_def emit_def conn_end_event_def Let_def split: option.splits)

lemma conn_end_event_delete:
  "q \<noteq> k \<Longrightarrow> conn_end_event (AList.delete k al) q = conn_end_event al q"
  by (simp add: conn_end_event_def delete_conv')

lemma conn_end_event_delete_image:
  "k \<notin> set ks \<Longrightarrow> conn_end_event (AList.delete k al) ` set ks = conn_end_event al ` set ks"
  by (rule image_cong[OF refl]) (metis conn_end_event_delete)

lemma conn_end_event_delete_map:
  "k \<notin> set ks \<Longrightarrow> map (conn_end_event (AList.delete k al)) ks = map (conn_end_event al) ks"
  by (rule map_cong[OF refl]) (metis conn_end_event_delete)

lemma conn_end_loop_Cons:
  "for_each (log_conn_end os) (k # ks) m =
     (case print_raises os (message (conn_end_event (conn_info m) k)) of
        None \<Rightarrow>
          (fst (for_each (log_conn_end os) ks (m\<lparr>conn_info := AList.delete k (conn_info m)\<rparr>)),
           fst (snd (for_each (log_conn_end os) ks (m\<lparr>conn_info := AList.delete k (conn_info m)\<rparr>))),
           [LogEvent (conn_end_event (conn_info m) k), PrintEvent (conn_end_event (conn_info m) k)]
             @ snd (snd (for_each (log_conn_end os) ks (m\<lparr>conn_info := AList.delete k (conn_info m)\<rparr>))))
      | Some e \<Rightarrow> (Some e, m, [LogEvent (conn_end_event (conn_info m) k)]))"
  by (simp add: for_each.simps(2) log_conn_end_unfold and_then_def case_prod_beta split: option.splits)

lemma conn_end_loop_logged_subset:
  "distinct ks \<Longrightarrow>
     set (logged (snd (snd (for_each (log_conn_end os) ks m)))) \<subseteq> conn_end_event (conn_info m) ` set ks"
proof (induction ks arbitrary: m)
  case Nil
  show ?case by simp
next
  case (Cons k ks)
  let ?m = "m\<lparr>conn_info := AList.delete k (conn_info m)\<rparr>"
  from Cons.prems have d: "distinct ks" and nk: "k \<notin> set ks" by simp_all
  have "conn_end_event (conn_info ?m) ` set ks = conn_end_event (conn_info m) ` set ks"
    using nk by (simp add: conn_end_event_delete_image)
  with Cons.IH[OF d, of ?m]
  have "set (logged (snd (snd (for_each (log_conn_end os) ks ?m)))) \<subseteq> conn_end_event (conn_info m) ` set ks"
    by simp
  then show ?case
    by (auto simp: conn_end_loop_Cons logged_append split: option.splits)
qed

lemma conn_end_loop_printed_subset:
  "distinct ks \<Longrightarrow>
     set (printed (snd (snd (for_each (log_conn_end os) ks m)))) \<subseteq> conn_end_event (conn_info m) ` set ks"
proof (induction ks arbitrary: m)
  case Nil
  show ?case by simp
next
  case (Cons k ks)
  let ?m = "m\<lparr>conn_info := AList.delete k (conn_info m)\<rparr>"
  from Cons.prems have d: "distinct ks" and nk: "k \<notin> set ks" by simp_all
  have "conn_end_event (conn_info ?m) ` set ks = conn_end_event (conn_info m) ` set ks"
    using nk by (simp add: conn_end_event_delete_image)
  with Cons.IH[OF d, of ?m]
  have "set (printed (snd (snd (for_each (log_conn_end os) ks ?m)))) \<subseteq> conn_end_event (conn_info m) ` set ks"
    by simp
  then show ?case
    by (auto simp: conn_end_loop_Cons printed_append split: option.splits)
qed

lemma conn_end_loop_quiet: "diagnostics lv (snd (snd (for_each (log_conn_end os) ks m))) = []"
  by (induction ks arbitrary: m)
     (simp_all add: conn_end_loop_Cons diagnostics_append split: option.splits)

lemma conn_end_loop_other:
  "pid_info (fst (snd (for_each (log_conn_end os) ks m))) = pid_info m"
  "running (fst (snd (for_each (log_conn_end os) ks m))) = running m"
  "monitor_network (fst (snd (for_each (log_conn_end os) ks m))) = monitor_network m"
  by (induction ks arbitrary: m; simp add: conn_end_loop_Cons split: option.splits)+

lemma conn_end_loop_map_of:
  "map_of (conn_info (fst (snd (for_each (log_conn_end os) ks m)))) q = None \<or>
   map_of (conn_info (fst (snd (for_each (log_conn_end os) ks m)))) q = map_of (conn_info m) q"
proof (induction ks arbitrary: m)
  case Nil
  show ?case by simp
next
  case (Cons k ks)
  show ?case
    using Cons.IH[of "m\<lparr>conn_info := AList.delete k (conn_info m)\<rparr>"]
    by (cases "q = k") (auto simp: conn_end_loop_Cons delete_conv' split: option.splits)
qed

lemma conn_end_loop_ok_None: "sink_ok os \<Longrightarrow> fst (for_each (log_conn_end os) ks m) = None"
  by (induction ks arbitrary: m) (simp_all add: conn_end_loop_Cons sink_ok_def)

lemma conn_end_loop_ok_keys:
  "sink_ok os \<Longrightarrow>
     fst ` set (conn_info (fst (snd (for_each (log_conn_end os) ks m)))) =
       fst ` set (conn_info m) - set ks"
proof (induction ks arbitrary: m)
  case Nil
  show ?case by simp
next
  case (Cons k ks)
  have "fst ` set (AList.delete k (conn_info m)) = fst ` set (conn_info m) - {k}"
    by (auto simp: AList.delete_eq)
  with Cons show ?case
    by (auto simp: conn_end_loop_Cons sink_ok_def)
qed

lemma conn_end_loop_ok_logged:
  "sink_ok os \<Longrightarrow> distinct ks \<Longrightarrow>
     logged (snd (snd (for_each (log_conn_end os) ks m))) = map (conn_end_event (conn_info m)) ks"
proof (induction ks arbitrary: m)
  case Nil
  show ?case by simp
next
  case (Cons k ks)
  let ?m = "m\<lparr>conn_info := AList.delete k (conn_info m)\<rparr>"
  from Cons.prems have d: "distinct ks" and nk: "k \<notin> set ks" by simp_all
  have "map (conn_end_event (conn_info ?m)) ks = map (conn_end_event (conn_info m)) ks"
    using nk by (simp add: conn_end_event_delete_map)
  with Cons.IH[OF Cons.prems(1) d, of ?m] Cons.prems(1) show ?case
    by (simp add: conn_end_loop_Cons sink_ok_def)
qed

lemma conn_end_loop_ok_printed:
  "sink_ok os \<Longrightarrow> distinct ks \<Longrightarrow>
     printed (snd (snd (for_each (log_conn_end os) ks m))) = map (conn_end_event (conn_info m)) ks"
proof (induction ks arbitrary: m)
  case Nil
  show ?case by simp
next
  case (Cons k ks)
  let ?m = "m\<lparr>conn_info := AList.delete k (conn_info m)\<rparr>"
  from Cons.prems have d: "distinct ks" and nk: "k \<notin> set ks" by simp_all
  have "map (conn_end_event (conn_info ?m)) ks = map (conn_end_event (conn_info m)) ks"
    using nk by (simp add: conn_end_event_delete_map)
  with Cons.IH[OF Cons.prems(1) d, of ?m] Cons.prems(1) show ?case
    by (simp add: conn_end_loop_Cons sink_ok_def)
qed

lemma scanned_keys: "set (fst (scan (snd (list_connections os)) ([], al))) = set (snapshot_keys os)"
  by (simp add: scan_keys snapshot_keys_def)

lemma scanned_dom:
  "fst ` set (snd (scan (snd (list_connections os)) ([], al))) = fst ` set al \<union> set (snapshot_keys os)"
  by (simp add: scan_dom snapshot_keys_def)

lemma distinct_ended_keys: "distinct (ended_keys os al)"
  by (simp add: ended_keys_def)

lemma set_ended_keys: "set (ended_keys os al) = fst ` set al - set (snapshot_keys os)"
  unfolding ended_keys_def set_filter set_remdups set_map scanned_keys scanned_dom by auto

lemma poll_connections_unfold:
  "poll_connections os m =
     (fst (for_each (log_conn_end os) (ended_keys os (conn_info m)) (after_scan os m)),
      fst (snd (for_each (log_conn_end os) (ended_keys os (conn_info m)) (after_scan os m))),
      fst (list_connections os)
        @ snd (snd (for_each (log_conn_end os) (ended_keys os (conn_info m)) (after_scan os m))))"
proof -
  obtain out0 conns where lc: "list_connections os = (out0, conns)"
    by (cases "list_connections os")
  obtain ks al where sc: "scan conns ([], conn_info m) = (ks, al)"
    by (cases "scan conns ([], conn_info m)")
  have "set ks \<subseteq> fst ` set al"
    using scan_keys[of conns "[]" "conn_info m"] scan_dom[of conns "[]" "conn_info m"] sc by auto
  then have none: "filter (\<lambda>k. k \<notin> fst ` set al) ks = []"
    by (auto simp: filter_empty_conv)
  show ?thesis
    by (simp add: poll_connections_def lc sc none and_then_def ended_keys_def after_scan_def
                  case_prod_beta Let_def)
qed

lemma conn_end_event_after_scan:
  "k \<in> set (ended_keys os (conn_info m)) \<Longrightarrow>
     conn_end_event (conn_info (after_scan os m)) k = conn_end_event (conn_info m) k"
  by (simp add: conn_end_event_def after_scan_def set_ended_keys scan_map_of_other snapshot_keys_def)

lemma list_connections_quiet:
  "logged (fst (list_connections os)) = []" "printed (fst (list_connections os)) = []"
  "diagnostics ERROR (fst (list_connections os)) = []"
  by (simp_all add: list_connections_def split: sum.splits)

lemma poll_connections_other:
  "pid_info (fst (snd (poll_connections os m))) = pid_info m"
  "running (fst (snd (poll_connections os m))) = running m"
  "monitor_network (fst (snd (poll_connections os m))) = monitor_network m"
  by (simp_all add: poll_connections_unfold conn_end_loop_other after_scan_def)

lemma poll_connections_logged_subset:
  "set (logged (snd (snd (poll_connections os m)))) \<subseteq>
     conn_end_event (conn_info m) ` set (ended_keys os (conn_info m))"
proof -
  have "set (logged (snd (snd (for_each (log_conn_end os) (ended_keys os (conn_info m)) (after_scan os m)))))
          \<subseteq> conn_end_event (conn_info (after_scan os m)) ` set (ended_keys os (conn_info m))"
    by (rule conn_end_loop_logged_subset[OF distinct_ended_keys])
  also have "\<dots> = conn_end_event (conn_info m) ` set (ended_keys os (conn_info m))"
    by (intro image_cong refl conn_end_event_after_scan)
  finally show ?thesis
    by (simp add: poll_connections_unfold logged_append list_connections_quiet)
qed

lemma poll_connections_printed_subset:
  "set (printed (snd (snd (poll_connections os m)))) \<subseteq>
     conn_end_event (conn_info m) ` set (ended_keys os (conn_info m))"
proof -
  have "set (printed (snd (snd (for_each (log_conn_end os) (ended_keys os (conn_info m)) (after_scan os m)))))
          \<subseteq> conn_end_event (conn_info (after_scan os m)) ` set (ended_keys os (conn_info m))"
    by (rule conn_end_loop_printed_subset[OF distinct_ended_keys])
  also have "\<dots> = conn_end_event (conn_info m) ` set (ended_keys os (conn_info m))"
    by (intro image_cong refl conn_end_event_after_scan)
  finally show ?thesis
    by (simp add: poll_connections_unfold printed_append list_connections_quiet)
qed

lemma poll_connections_error: "diagnostics ERROR (snd (snd (poll_connections os m))) = []"
  by (simp add: poll_connections_unfold diagnostics_append list_connections_quiet conn_end_loop_quiet)

lemma poll_connections_map_of:
  "k \<in> fst ` set (conn_info m) \<Longrightarrow>
     map_of (conn_info (fst (snd (poll_connections os m)))) k = None \<or>
     map_of (conn_info (fst (snd (poll_connections os m)))) k = map_of (conn_info m) k"
proof -
  assume "k \<in> fst ` set (conn_info m)"
  then obtain v where "map_of (conn_info m) k = Some v"
    by (metis map_of_eq_None_iff not_None_eq)
  then have "map_of (conn_info (after_scan os m)) k = map_of (conn_info m) k"
    by (simp add: after_scan_def scan_keeps)
  with conn_end_loop_map_of[of os "ended_keys os (conn_info m)" "after_scan os m" k]
  show ?thesis
    by (simp add: poll_connections_unfold)
qed

lemma poll_connections_ok_None: "sink_ok os \<Longrightarrow> fst (poll_connections os m) = None"
  by (simp add: poll_connections_unfold conn_end_loop_ok_None)

lemma poll_connections_ok_keys:
  "sink_ok os \<Longrightarrow>
     fst ` set (conn_info (fst (snd (poll_connections os m)))) = set (snapshot_keys os)"
  by (auto simp: poll_connections_unfold conn_end_loop_ok_keys set_ended_keys after_scan_def scanned_dom)

lemma poll_connections_ok_logged:
  "sink_ok os \<Longrightarrow>
     logged (snd (snd (poll_connections os m))) =
       map (conn_end_event (conn_info m)) (ended_keys os (conn_info m))"
proof -
  assume ok: "sink_ok os"
  have "map (conn_end_event (conn_info (after_scan os m))) (ended_keys os (conn_info m)) =
        map (conn_end_event (conn_info m)) (ended_keys os (conn_info m))"
    by (intro map_cong refl conn_end_event_after_scan)
  then show ?thesis
    by (simp add: poll_connections_unfold logged_append list_connections_quiet
                  conn_end_loop_ok_logged[OF ok distinct_ended_keys])
qed

lemma poll_connections_ok_printed:
  "sink_ok os \<Longrightarrow>
     printed (snd (snd (poll_connections os m))) = logged (snd (snd (poll_connections os m)))"
  by (simp add: poll_connections_unfold logged_append printed_append list_connections_quiet
                conn_end_loop_ok_logged[OF _ distinct_ended_keys]
                conn_end_loop_ok_printed[OF _ distinct_ended_keys])

section \<open>The whole cycle\<close>

lemma poll_once_raised:
  "fst (poll_pids os m) = Some e \<Longrightarrow> poll_once os m = poll_pids os m"
  by (cases "poll_pids os m") (simp add: poll_once_def and_then_def)

lemma poll_once_returned:
  "fst (poll_pids os m) = None \<Longrightarrow>
     poll_once os m =
       (if monitor_network m
        then (None, fst (snd (poll_connections os (fst (snd (poll_pids os m))))),
              snd (snd (poll_pids os m)) @ snd (snd (poll_connections os (fst (snd (poll_pids os m))))))
        else (None, fst (snd (poll_pids os m)), snd (snd (poll_pids os m))))"
  using poll_pids_other(3)[of os m]
  by (cases "poll_pids os m") (simp add: poll_once_def and_then_def case_prod_beta)

lemma poll_once_without_network:
  "\<not> monitor_network m \<Longrightarrow> poll_once os m = poll_pids os m"
  using poll_pids_other(3)[of os m]
  by (cases "poll_pids os m") (auto simp: poll_once_def and_then_def split: option.splits)

lemma poll_once_pid_info:
  "pid_info (fst (snd (poll_once os m))) = pid_info (fst (snd (poll_pids os m)))"
  by (cases "fst (poll_pids os m)")
     (simp_all add: poll_once_raised poll_once_returned poll_connections_other)

lemma poll_once_other:
  "running (fst (snd (poll_once os m))) = running m"
  "monitor_network (fst (snd (poll_once os m))) = monitor_network m"
  by (cases "fst (poll_pids os m)";
      simp add: poll_once_raised poll_once_returned poll_connections_other poll_pids_other)+

lemma poll_once_logged_subset:
  "set (logged (snd (snd (poll_once os m)))) \<subseteq>
     set (concat (map (start_events os) (created_pids os m))) \<union> end_event m ` set (ended_pids os m)
       \<union> conn_end_event (conn_info m) ` set (ended_keys os (conn_info m))"
  using poll_pids_logged_subset[of os m]
        poll_connections_logged_subset[of os "fst (snd (poll_pids os m))"]
  by (cases "fst (poll_pids os m)")
     (auto simp: poll_once_raised poll_once_returned logged_append poll_pids_other)

lemma poll_once_printed_subset:
  "set (printed (snd (snd (poll_once os m)))) \<subseteq>
     set (concat (map (start_events os) (created_pids os m))) \<union> end_event m ` set (ended_pids os m)
       \<union> conn_end_event (conn_info m) ` set (ended_keys os (conn_info m))"
  using poll_pids_printed_subset[of os m]
        poll_connections_printed_subset[of os "fst (snd (poll_pids os m))"]
  by (cases "fst (poll_pids os m)")
     (auto simp: poll_once_raised poll_once_returned printed_append poll_pids_other)

lemma poll_once_ok_None: "sink_ok os \<Longrightarrow> fst (poll_once os m) = None"
  by (simp add: poll_once_returned poll_pids_ok_None)

lemma poll_once_ok_logged:
  "sink_ok os \<Longrightarrow>
     logged (snd (snd (poll_once os m))) =
       concat (map (start_events os) (created_pids os m)) @ map (end_event m) (ended_pids os m)
         @ (if monitor_network m
            then map (conn_end_event (conn_info m)) (ended_keys os (conn_info m)) else [])"
  by (simp add: poll_once_returned poll_pids_ok_None logged_append poll_pids_ok_logged
                poll_connections_ok_logged poll_pids_other)

lemma poll_once_ok_printed:
  "sink_ok os \<Longrightarrow> printed (snd (snd (poll_once os m))) = logged (snd (snd (poll_once os m)))"
  by (simp add: poll_once_returned poll_pids_ok_None logged_append printed_append
                poll_pids_ok_printed poll_connections_ok_printed)

lemma poll_once_ok_pid_keys:
  "sink_ok os \<Longrightarrow>
     fst ` set (pid_info (fst (snd (poll_once os m)))) =
       {p \<in> set (current_pids os). p \<in> fst ` set (pid_info m) \<or> fetch_ok os p}"
  by (simp add: poll_once_pid_info poll_pids_ok_keys)

lemma poll_once_ok_conn_keys:
  "sink_ok os \<Longrightarrow> monitor_network m \<Longrightarrow>
     fst ` set (conn_info (fst (snd (poll_once os m)))) = set (snapshot_keys os)"
  by (simp add: poll_once_returned poll_pids_ok_None poll_connections_ok_keys)

section \<open>Counting the events of an identity\<close>

lemma count_started_in_starts:
  "distinct ps \<Longrightarrow>
     length (filter (started_pid x) (concat (map (start_events os) ps))) =
       (if x \<in> set ps \<and> fetch_ok os x then 1 else 0)"
  by (induction ps) (auto simp: start_events_def fetch_ok_def split: sum.splits)

lemma count_ended_in_ends:
  "distinct ps \<Longrightarrow>
     length (filter (ended_pid x) (map (end_event m) ps)) = (if x \<in> set ps then 1 else 0)"
  by (induction ps) (auto simp del: length_filter_map simp: end_event_def)

lemma count_ended_conn_in_ends:
  "distinct ks \<Longrightarrow>
     length (filter (ended_conn k) (map (conn_end_event al) ks)) = (if k \<in> set ks then 1 else 0)"
  by (induction ks) (auto simp del: length_filter_map simp: conn_end_event_def Let_def)

lemma no_end_outside:
  "x \<notin> set ps \<Longrightarrow> filter (ended_pid x) (map (end_event m) ps) = []"
  "k \<notin> set ks \<Longrightarrow> filter (ended_conn k) (map (conn_end_event al) ks) = []"
  by (auto simp: filter_empty_conv end_event_def conn_end_event_def Let_def)

lemma no_cross_events:
  "filter (started_pid x) (map (end_event m) ps) = []"
  "filter (started_pid x) (map (conn_end_event al) ks) = []"
  "filter (ended_pid x) (concat (map (start_events os) ps)) = []"
  "filter (ended_pid x) (map (conn_end_event al) ks) = []"
  "filter (ended_conn k) (concat (map (start_events os) ps)) = []"
  "filter (ended_conn k) (map (end_event m) ps) = []"
  "filter (started_conn k) (concat (map (start_events os) ps)) = []"
  "filter (started_conn k) (map (end_event m) ps) = []"
  "filter (started_conn k) (map (conn_end_event al) ks) = []"
  by (auto simp: filter_empty_conv end_event_def conn_end_event_def Let_def start_events_def
           split: sum.splits)

lemma poll_once_ok_count_started:
  "sink_ok os \<Longrightarrow>
     length (filter (started_pid x) (logged (snd (snd (poll_once os m))))) =
       (if x \<in> set (current_pids os) - fst ` set (pid_info m) \<and> fetch_ok os x then 1 else 0)"
  by (simp del: length_filter_map
           add: poll_once_ok_logged no_cross_events count_started_in_starts distinct_created_pids
                set_created_pids)

lemma poll_once_ok_count_ended:
  "sink_ok os \<Longrightarrow>
     length (filter (ended_pid x) (logged (snd (snd (poll_once os m))))) =
       (if x \<in> fst ` set (pid_info m) - set (current_pids os) then 1 else 0)"
  by (simp del: length_filter_map
           add: poll_once_ok_logged no_cross_events count_ended_in_ends distinct_ended_pids
                set_ended_pids no_end_outside)

lemma poll_once_ok_count_ended_conn:
  "sink_ok os \<Longrightarrow>
     length (filter (ended_conn k) (logged (snd (snd (poll_once os m))))) =
       (if monitor_network m \<and> k \<in> fst ` set (conn_info m) - set (snapshot_keys os) then 1 else 0)"
  by (simp del: length_filter_map
           add: poll_once_ok_logged no_cross_events count_ended_conn_in_ends distinct_ended_keys
                set_ended_keys no_end_outside)

lemma poll_once_no_started_conn:
  "filter (started_conn k) (logged (snd (snd (poll_once os m)))) = []"
  "filter (started_conn k) (printed (snd (snd (poll_once os m)))) = []"
  using poll_once_logged_subset[of os m] poll_once_printed_subset[of os m]
  by (auto simp: filter_empty_conv end_event_def conn_end_event_def Let_def start_events_def
           split: sum.splits)

section \<open>Stored names, diagnostics and the loop\<close>

lemma keys_empty: "fst ` set al = {} \<Longrightarrow> al = []"
  by simp

lemma filter_started_in_starts:
  "distinct ps \<Longrightarrow>
     filter (started_pid x) (concat (map (start_events os) ps)) =
       (if x \<in> set ps then start_events os x else [])"
proof (induction ps)
  case Nil
  show ?case by simp
next
  case (Cons p ps)
  have own: "filter (started_pid x) (start_events os p) = (if p = x then start_events os x else [])"
    by (auto simp: start_events_def split: sum.splits)
  from Cons have "x \<in> set ps \<Longrightarrow> p \<noteq> x" by auto
  with Cons own show ?case by auto
qed

lemma start_loop_stored:
  "distinct ps \<Longrightarrow> x \<in> set ps \<Longrightarrow> starts os x \<Longrightarrow>
     map_of (pid_info (fst (snd (for_each (log_start os) ps m)))) x =
       Some (fst (projr (fetch os x)))"
proof (induction ps arbitrary: m)
  case Nil
  then show ?case by simp
next
  case (Cons p ps)
  show ?case
  proof (cases "x = p")
    case True
    with Cons.prems have "x \<notin> set ps" by simp
    then show ?thesis
      unfolding for_each_log_start_Cons fst_conv snd_conv
      using Cons.prems(3) True by (simp add: start_loop_map_of log_start_pid_info update_conv')
  next
    case False
    with Cons.prems have "distinct ps" "x \<in> set ps" by simp_all
    from Cons.IH[OF this Cons.prems(3)] show ?thesis
      unfolding for_each_log_start_Cons fst_conv snd_conv by simp
  qed
qed

lemma poll_pids_printed_started:
  assumes "ProcessStarted x name ctime \<in> set (printed (snd (snd (poll_pids os m))))"
  shows "x \<in> set (created_pids os m) \<and> starts os x \<and> fetch os x = Inr (name, ctime)"
proof -
  have "ProcessStarted x name ctime \<notin> end_event (after_starts os m) ` set (ended_pids os m)"
    by (auto simp: end_event_def)
  with end_loop_printed_subset[of "ended_pids os m" os "after_starts os m", OF distinct_ended_pids] assms
  have "ProcessStarted x name ctime
          \<in> set (concat (map (start_events os) (filter (starts os) (created_pids os m))))"
    by (auto simp: poll_pids_unfold printed_append list_pids_quiet start_loop_printed)
  then show ?thesis
    by (auto simp: start_events_def split: sum.splits)
qed

lemma poll_pids_stored:
  assumes "x \<in> set (created_pids os m)" and "starts os x"
  shows "map_of (pid_info (fst (snd (poll_pids os m)))) x = Some (fst (projr (fetch os x)))"
proof -
  from assms(1) have "x \<notin> set (ended_pids os m)"
    by (simp add: set_created_pids set_ended_pids)
  then show ?thesis
    by (simp add: poll_pids_unfold end_loop_map_of_other after_starts_def
                  start_loop_stored[OF distinct_created_pids assms])
qed

lemma poll_once_printed_split:
  "set (printed (snd (snd (poll_once os m)))) \<subseteq>
     set (printed (snd (snd (poll_pids os m))))
       \<union> conn_end_event (conn_info m) ` set (ended_keys os (conn_info m))"
  using poll_connections_printed_subset[of os "fst (snd (poll_pids os m))"]
  by (cases "fst (poll_pids os m)")
     (auto simp: poll_once_raised poll_once_returned printed_append poll_pids_other)

lemma poll_pids_keys_subset:
  "fst ` set (pid_info (fst (snd (poll_pids os m)))) \<subseteq>
     fst ` set (pid_info m) \<union> {p \<in> set (created_pids os m). starts os p}"
proof
  fix q
  assume q: "q \<in> fst ` set (pid_info (fst (snd (poll_pids os m))))"
  then have "map_of (pid_info (fst (snd (poll_pids os m)))) q \<noteq> None"
    by (simp add: map_of_eq_None_iff)
  with end_loop_map_of[of os "ended_pids os m" "after_starts os m" q]
  have "map_of (pid_info (after_starts os m)) q \<noteq> None"
    by (auto simp: poll_pids_unfold)
  then have "q \<in> fst ` set (pid_info (after_starts os m))"
    by (simp add: map_of_eq_None_iff)
  then show "q \<in> fst ` set (pid_info m) \<union> {p \<in> set (created_pids os m). starts os p}"
    by (simp add: after_starts_def start_loop_keys)
qed

lemma poll_pids_enumeration_failed:
  assumes "pids os = Inl e"
  shows "current_pids os = []"
    and "diagnostics ERROR (snd (snd (poll_pids os m))) = [''Failed to list PIDs: '' @ str_exn e]"
proof -
  show c: "current_pids os = []"
    using assms by (simp add: current_pids_def list_pids_def)
  then have "created_pids os m = []"
    by (simp add: created_pids_def)
  then show "diagnostics ERROR (snd (snd (poll_pids os m))) = [''Failed to list PIDs: '' @ str_exn e]"
    using assms by (simp add: poll_pids_unfold diagnostics_append end_loop_quiet list_pids_def)
qed

lemma poll_once_error:
  "diagnostics ERROR (snd (snd (poll_once os m))) = diagnostics ERROR (snd (snd (poll_pids os m)))"
  by (cases "fst (poll_pids os m)")
     (simp_all add: poll_once_raised poll_once_returned diagnostics_append poll_connections_error)

lemma poll_connections_enumeration_failed:
  assumes "net_connections os = Inl e"
  shows "snapshot_keys os = []"
    and "diagnostics DEBUG (snd (snd (poll_connections os m))) =
           [''Failed to list network connections: '' @ str_exn e]"
  using assms
  by (simp_all add: snapshot_keys_def list_connections_def poll_connections_unfold
                    diagnostics_append conn_end_loop_quiet)

lemma poll_once_debug:
  "fst (poll_pids os m) = None \<Longrightarrow> monitor_network m \<Longrightarrow>
     diagnostics DEBUG (snd (snd (poll_once os m))) =
       diagnostics DEBUG (snd (snd (poll_connections os (fst (snd (poll_pids os m))))))"
  by (simp add: poll_once_returned diagnostics_append poll_pids_debug)

lemma loop_continues:
  assumes "running m" and "\<not> interrupted os" and "poll_once os m = (None, m', out)"
  shows "loop (os # rest) m =
           (fst (loop rest m'), fst (snd (loop rest m')), out @ snd (snd (loop rest m')))"
  using assms by (simp add: case_prod_beta)

section \<open>Seeding\<close>

lemma seed_conns_dom:
  "fst ` set (seed_conns cs al) = fst ` set al \<union> conn_key ` set (readable cs)"
  by (induction cs al rule: seed_conns.induct) (auto simp: dom_update)

lemma seed_pids_dom:
  "seed_pids os ps al = Inr info \<Longrightarrow> fst ` set info \<subseteq> fst ` set al \<union> set ps"
proof (induction ps arbitrary: al)
  case Nil
  then show ?case by auto
next
  case (Cons p ps)
  show ?case
  proof (cases "Process os p")
    case (Inl e)
    with Cons show ?thesis by (cases e) auto
  next
    case (Inr proc)
    show ?thesis
    proof (cases "proc_name proc")
      case (Inl e)
      with Cons Inr show ?thesis by (cases e) auto
    next
      case name: (Inr name)
      with Cons.prems Inr have "seed_pids os ps (AList.update p name al) = Inr info" by simp
      from Cons.IH[OF this] show ?thesis by (auto simp: dom_update)
    qed
  qed
qed

section \<open>Unfolding the model on concrete inputs\<close>

lemmas run_defs =
  poll_once_def poll_pids_def poll_connections_def and_then_def list_pids_def list_connections_def
  created_pids_def ended_pids_def current_pids_def previous_pids_def log_start_def log_end_def
  log_conn_start_def log_conn_end_def emit_def fetch_def conn_key_def conn_details_def
  str_int_def str_nat.simps digit_def init_def seed_connections_def for_each.simps(2) Let_def
  snapshot_keys_def fetch_ok_def

lemmas ex_defs =
  ex_os_seed_def ex_os_next_def ex_os_vanishing_def ex_os_readable_def ex_os_down_def
  ex_os_net_down_def ex_os_broken_pipe_def ex_os_close_wait_def ex_monitor_def ex_single_def
  ex_process_def ex_procs_def ex_conn_def ex_listen_def ex_K1_def ex_K2_def

lemma ex_monitor_eval:
  "ex_monitor =
     \<lparr>running = True, pid_info = [(100, ''alpha''), (101, ''gamma'')], monitor_network = True,
      conn_info =
        [(ex_K1, conn_details (ex_conn ''ESTABLISHED'')),
         (conn_key ex_listen, conn_details ex_listen)]\<rparr>"
  by (simp add: run_defs ex_defs)

lemma ex_sinks:
  "sink_ok ex_os_seed" "sink_ok ex_os_next" "sink_ok ex_os_vanishing" "sink_ok ex_os_readable"
  "sink_ok ex_os_down" "sink_ok ex_os_net_down" "sink_ok ex_os_close_wait"
  by (simp_all add: sink_ok_def ex_defs)

lemma ex_keys_differ: "ex_K1 \<noteq> ex_K2" "ex_K1 \<noteq> conn_key ex_listen" "ex_K2 \<noteq> conn_key ex_listen"
  by (simp_all add: ex_defs conn_key_def)

section \<open>The claims\<close>

text \<open>
  C1 (start/end symmetry), as the code has it. In a cycle whose prints succeed, every
  event is printed exactly as it is logged, and
  \<^item> a pid in the current enumeration but not in the state before, whose detail fetch
    succeeds, gets exactly one "started" event and is in the state afterwards;
  \<^item> a pid in the state before but not in the current enumeration gets exactly one
    "ended" event and is not in the state afterwards;
  \<^item> a connection identity in the state before but not in the current snapshot gets
    exactly one "ended" event and is not in the state afterwards;
  \<^item> a connection identity in the current snapshot but not in the state before is in
    the state afterwards.
  With \<^verbatim>\<open>monitor_network\<close> off the cycle is \<^verbatim>\<open>_poll_once\<close> of \<^verbatim>\<open>src/main.py\<close>
  (lemma \<open>poll_once_without_network\<close>).
\<close>

theorem start_end_symmetry:
  assumes "sink_ok os" and "poll_once os m = (r, m', out)"
  shows
    "printed out = logged out
     \<and> (x \<in> set (current_pids os) - fst ` set (pid_info m) \<and> fetch_ok os x \<longrightarrow>
          length (filter (started_pid x) (logged out)) = 1 \<and> x \<in> fst ` set (pid_info m'))
     \<and> (x \<in> fst ` set (pid_info m) - set (current_pids os) \<longrightarrow>
          length (filter (ended_pid x) (logged out)) = 1 \<and> x \<notin> fst ` set (pid_info m'))
     \<and> (monitor_network m \<and> k \<in> fst ` set (conn_info m) - set (snapshot_keys os) \<longrightarrow>
          length (filter (ended_conn k) (logged out)) = 1 \<and> k \<notin> fst ` set (conn_info m'))
     \<and> (monitor_network m \<and> k \<in> set (snapshot_keys os) - fst ` set (conn_info m) \<longrightarrow>
          k \<in> fst ` set (conn_info m'))"
proof -
  from assms(2) have m': "m' = fst (snd (poll_once os m))" and out: "out = snd (snd (poll_once os m))"
    by simp_all
  note ok = assms(1)
  have "printed out = logged out"
    unfolding out by (rule poll_once_ok_printed[OF ok])
  moreover have "x \<in> set (current_pids os) - fst ` set (pid_info m) \<and> fetch_ok os x \<longrightarrow>
          length (filter (started_pid x) (logged out)) = 1 \<and> x \<in> fst ` set (pid_info m')"
    unfolding out m' poll_once_ok_count_started[OF ok] poll_once_ok_pid_keys[OF ok] by simp
  moreover have "x \<in> fst ` set (pid_info m) - set (current_pids os) \<longrightarrow>
          length (filter (ended_pid x) (logged out)) = 1 \<and> x \<notin> fst ` set (pid_info m')"
    unfolding out m' poll_once_ok_count_ended[OF ok] poll_once_ok_pid_keys[OF ok] by simp
  moreover have "monitor_network m \<and> k \<in> fst ` set (conn_info m) - set (snapshot_keys os) \<longrightarrow>
          length (filter (ended_conn k) (logged out)) = 1 \<and> k \<notin> fst ` set (conn_info m')"
    unfolding out m' poll_once_ok_count_ended_conn[OF ok]
    using poll_once_ok_conn_keys[OF ok, of m] by simp
  moreover have "monitor_network m \<and> k \<in> set (snapshot_keys os) - fst ` set (conn_info m) \<longrightarrow>
          k \<in> fst ` set (conn_info m')"
    unfolding m' using poll_once_ok_conn_keys[OF ok, of m] by simp
  ultimately show ?thesis by simp
qed

text \<open>
  An instance: the monitor seeded with pids 100 and 101 polls a host where 101 is gone, 200
  has appeared and the established connection has changed status.
\<close>

theorem start_end_symmetry_witness:
  "sink_ok ex_os_next \<and> monitor_network ex_monitor
   \<and> 200 \<in> set (current_pids ex_os_next) - fst ` set (pid_info ex_monitor)
   \<and> fetch_ok ex_os_next 200
   \<and> length (filter (started_pid 200) (logged (snd (snd (poll_once ex_os_next ex_monitor))))) = 1
   \<and> 200 \<in> fst ` set (pid_info (fst (snd (poll_once ex_os_next ex_monitor))))
   \<and> 101 \<in> fst ` set (pid_info ex_monitor) - set (current_pids ex_os_next)
   \<and> length (filter (ended_pid 101) (logged (snd (snd (poll_once ex_os_next ex_monitor))))) = 1
   \<and> 101 \<notin> fst ` set (pid_info (fst (snd (poll_once ex_os_next ex_monitor))))
   \<and> ex_K1 \<in> fst ` set (conn_info ex_monitor) - set (snapshot_keys ex_os_next)
   \<and> length (filter (ended_conn ex_K1) (logged (snd (snd (poll_once ex_os_next ex_monitor))))) = 1
   \<and> ex_K1 \<notin> fst ` set (conn_info (fst (snd (poll_once ex_os_next ex_monitor))))
   \<and> ex_K2 \<in> set (snapshot_keys ex_os_next) - fst ` set (conn_info ex_monitor)
   \<and> ex_K2 \<in> fst ` set (conn_info (fst (snd (poll_once ex_os_next ex_monitor))))
   \<and> printed (snd (snd (poll_once ex_os_next ex_monitor)))
       = logged (snd (snd (poll_once ex_os_next ex_monitor)))"
proof -
  have poll: "poll_once ex_os_next ex_monitor =
      (fst (poll_once ex_os_next ex_monitor), fst (snd (poll_once ex_os_next ex_monitor)),
       snd (snd (poll_once ex_os_next ex_monitor)))"
    by simp
  have hyps: "monitor_network ex_monitor"
    "200 \<in> set (current_pids ex_os_next) - fst ` set (pid_info ex_monitor)"
    "fetch_ok ex_os_next 200"
    "101 \<in> fst ` set (pid_info ex_monitor) - set (current_pids ex_os_next)"
    "ex_K1 \<in> fst ` set (conn_info ex_monitor) - set (snapshot_keys ex_os_next)"
    "ex_K2 \<in> set (snapshot_keys ex_os_next) - fst ` set (conn_info ex_monitor)"
    by (simp_all add: run_defs ex_defs)
  from hyps ex_sinks(2)
    start_end_symmetry[OF ex_sinks(2) poll, of 200 ex_K1]
    start_end_symmetry[OF ex_sinks(2) poll, of 101 ex_K2]
  show ?thesis by blast
qed

text \<open>
  The claim as written does not hold. Pid 300 is enumerated and new, but its process has
  vanished when \<^verbatim>\<open>_log_start\<close> reads it: no "started" event, and 300 is not in the
  state afterwards. The connection identity \<open>ex_K2\<close> is new in the snapshot, and no
  "Connection Started" event is logged for it.
\<close>

theorem start_end_symmetry_counterexample:
  "300 \<in> set (current_pids ex_os_vanishing) - fst ` set (pid_info ex_monitor)
   \<and> filter (started_pid 300) (logged (snd (snd (poll_once ex_os_vanishing ex_monitor)))) = []
   \<and> 300 \<notin> fst ` set (pid_info (fst (snd (poll_once ex_os_vanishing ex_monitor))))
   \<and> ex_K2 \<in> set (snapshot_keys ex_os_vanishing) - fst ` set (conn_info ex_monitor)
   \<and> filter (started_conn ex_K2) (logged (snd (snd (poll_once ex_os_vanishing ex_monitor)))) = []"
  by (simp add: run_defs ex_defs)

text \<open>
  C2 (status change of a tracked connection), evaluated on the code. The monitor tracks
  exactly one connection, with identity \<open>ex_K1\<close> (status \<^verbatim>\<open>ESTABLISHED\<close>); the next
  enumeration returns the same connection with status \<^verbatim>\<open>CLOSE_WAIT\<close>, identity
  \<open>ex_K2\<close>. The cycle logs exactly one "Connection Ended" for \<open>ex_K1\<close> and no
  "Connection Started" for \<open>ex_K2\<close>, although \<open>ex_K2\<close> is stored: \<^verbatim>\<open>previous_keys\<close>
  is read after the new keys were written, so \<^verbatim>\<open>created\<close> is empty
  (lemma \<open>poll_once_no_started_conn\<close> shows it for every input).
\<close>

theorem status_change_emits_no_start:
  "fst ` set (conn_info ex_single) = {ex_K1}
   \<and> snapshot_keys ex_os_close_wait = [ex_K2] \<and> ex_K2 \<noteq> ex_K1
   \<and> logged (snd (snd (poll_once ex_os_close_wait ex_single))) =
       [ConnectionEnded ex_K1 (Some ''10.0.0.5:443'') (Some ''10.0.0.9:5000'')
          (Some ''ESTABLISHED'') (Some ''100'')]
   \<and> length (filter (ended_conn ex_K1) (logged (snd (snd (poll_once ex_os_close_wait ex_single))))) = 1
   \<and> length (filter (started_conn ex_K2) (logged (snd (snd (poll_once ex_os_close_wait ex_single))))) = 0
   \<and> fst ` set (conn_info (fst (snd (poll_once ex_os_close_wait ex_single)))) = {ex_K2}"
  by (simp add: run_defs ex_defs)

text \<open>
  C3 (state equals snapshot), as the code has it. After a cycle whose prints succeed, the
  pids in the state are exactly the enumerated pids that were already tracked or whose
  detail fetch succeeded, and (with the connection watcher on) the connection identities
  in the state are exactly those of the snapshot. So the process state equals the
  snapshot whenever every newly enumerated pid can be read.
\<close>

theorem state_matches_snapshot:
  assumes "sink_ok os" and "poll_once os m = (r, m', out)"
  shows
    "fst ` set (pid_info m') =
       {p \<in> set (current_pids os). p \<in> fst ` set (pid_info m) \<or> fetch_ok os p}
     \<and> (monitor_network m \<longrightarrow> fst ` set (conn_info m') = set (snapshot_keys os))"
proof -
  from assms(2) have m': "m' = fst (snd (poll_once os m))" by simp
  show ?thesis
    unfolding m'
    using poll_once_ok_pid_keys[OF assms(1), of m] poll_once_ok_conn_keys[OF assms(1), of m]
    by simp
qed

text \<open>An instance, on the host where 101 is gone and 200 has appeared.\<close>

theorem state_matches_snapshot_witness:
  "sink_ok ex_os_next \<and> monitor_network ex_monitor
   \<and> set (current_pids ex_os_next) = {100, 200}
   \<and> fst ` set (pid_info (fst (snd (poll_once ex_os_next ex_monitor)))) =
       {p \<in> set (current_pids ex_os_next).
          p \<in> fst ` set (pid_info ex_monitor) \<or> fetch_ok ex_os_next p}
   \<and> fst ` set (conn_info (fst (snd (poll_once ex_os_next ex_monitor)))) =
       set (snapshot_keys ex_os_next)"
proof -
  have poll: "poll_once ex_os_next ex_monitor =
      (fst (poll_once ex_os_next ex_monitor), fst (snd (poll_once ex_os_next ex_monitor)),
       snd (snd (poll_once ex_os_next ex_monitor)))"
    by simp
  have hyps: "monitor_network ex_monitor" "set (current_pids ex_os_next) = {100, 200}"
    by (simp_all add: run_defs ex_defs)
  from hyps ex_sinks(2) state_matches_snapshot[OF ex_sinks(2) poll]
  show ?thesis by blast
qed

text \<open>
  The claim as written does not hold for the process watcher: pid 300 is in the snapshot
  and missing from the state after the poll, because its detail fetch failed.
\<close>

theorem state_matches_snapshot_counterexample:
  "set (current_pids ex_os_vanishing) = {100, 101, 300}
   \<and> fst ` set (pid_info (fst (snd (poll_once ex_os_vanishing ex_monitor)))) = {100, 101}
   \<and> fst ` set (pid_info (fst (snd (poll_once ex_os_vanishing ex_monitor))))
       \<noteq> set (current_pids ex_os_vanishing)"
proof -
  have a: "set (current_pids ex_os_vanishing) = {100, 101, 300}"
    and b: "fst ` set (pid_info (fst (snd (poll_once ex_os_vanishing ex_monitor)))) = {100, 101}"
    by (simp_all add: run_defs ex_defs)
  from a have "300 \<in> set (current_pids ex_os_vanishing)" by simp
  moreover from b have "300 \<notin> fst ` set (pid_info (fst (snd (poll_once ex_os_vanishing ex_monitor))))"
    by simp
  ultimately have "fst ` set (pid_info (fst (snd (poll_once ex_os_vanishing ex_monitor))))
      \<noteq> set (current_pids ex_os_vanishing)"
    by blast
  with a b show ?thesis by blast
qed

text \<open>
  C4 (degrade to empty on enumeration failure), as the code has it. Take two consecutive
  cycles whose prints succeed. If \<^verbatim>\<open>psutil.pids()\<close> fails in the first, every tracked pid
  gets exactly one "ended" event in it and the process state is empty afterwards; in the
  second, every enumerated pid whose detail fetch succeeds gets exactly one "started"
  event and is tracked again. If \<^verbatim>\<open>psutil.net_connections()\<close> fails in the first, every
  tracked connection identity gets exactly one "ended" event in it and the connection
  state is empty afterwards; after the second, the connection state holds exactly the
  identities of its snapshot.
\<close>

theorem failed_enumeration_ends_everything:
  assumes "sink_ok os1" and "sink_ok os2"
    and "poll_once os1 m = (r1, m1, out1)" and "poll_once os2 m1 = (r2, m2, out2)"
  shows
    "printed out1 = logged out1 \<and> printed out2 = logged out2
     \<and> (isl (pids os1) \<longrightarrow>
          (\<forall>x \<in> fst ` set (pid_info m). length (filter (ended_pid x) (logged out1)) = 1)
          \<and> pid_info m1 = []
          \<and> (\<forall>x \<in> set (current_pids os2). fetch_ok os2 x \<longrightarrow>
                length (filter (started_pid x) (logged out2)) = 1 \<and> x \<in> fst ` set (pid_info m2)))
     \<and> (monitor_network m \<and> isl (net_connections os1) \<longrightarrow>
          (\<forall>k \<in> fst ` set (conn_info m). length (filter (ended_conn k) (logged out1)) = 1)
          \<and> conn_info m1 = []
          \<and> fst ` set (conn_info m2) = set (snapshot_keys os2))"
proof -
  note ok1 = assms(1) and ok2 = assms(2)
  from assms(3) have m1: "m1 = fst (snd (poll_once os1 m))" and out1: "out1 = snd (snd (poll_once os1 m))"
    by simp_all
  from assms(4) have m2: "m2 = fst (snd (poll_once os2 m1))" and out2: "out2 = snd (snd (poll_once os2 m1))"
    by simp_all
  have net1: "monitor_network m1 = monitor_network m"
    unfolding m1 by (rule poll_once_other)
  have p: "printed out1 = logged out1" "printed out2 = logged out2"
    unfolding out1 out2 by (rule poll_once_ok_printed[OF ok1], rule poll_once_ok_printed[OF ok2])
  have procs: "(\<forall>x \<in> fst ` set (pid_info m). length (filter (ended_pid x) (logged out1)) = 1)
          \<and> pid_info m1 = []
          \<and> (\<forall>x \<in> set (current_pids os2). fetch_ok os2 x \<longrightarrow>
                length (filter (started_pid x) (logged out2)) = 1 \<and> x \<in> fst ` set (pid_info m2))"
    if "isl (pids os1)"
  proof -
    from that obtain e where "pids os1 = Inl e" by (cases "pids os1") simp_all
    then have cur: "current_pids os1 = []" by (rule poll_pids_enumeration_failed)
    have "fst ` set (pid_info m1) = {}"
      unfolding m1 poll_once_ok_pid_keys[OF ok1] cur by simp
    then have empty: "pid_info m1 = []" by simp
    have "\<forall>x \<in> fst ` set (pid_info m). length (filter (ended_pid x) (logged out1)) = 1"
      unfolding out1 poll_once_ok_count_ended[OF ok1] cur by simp
    moreover have "\<forall>x \<in> set (current_pids os2). fetch_ok os2 x \<longrightarrow>
                length (filter (started_pid x) (logged out2)) = 1 \<and> x \<in> fst ` set (pid_info m2)"
      unfolding out2 m2 poll_once_ok_count_started[OF ok2] poll_once_ok_pid_keys[OF ok2] empty
      by simp
    ultimately show ?thesis using empty by simp
  qed
  have conns: "(\<forall>k \<in> fst ` set (conn_info m). length (filter (ended_conn k) (logged out1)) = 1)
          \<and> conn_info m1 = []
          \<and> fst ` set (conn_info m2) = set (snapshot_keys os2)"
    if net: "monitor_network m" and "isl (net_connections os1)"
  proof -
    from that obtain e where "net_connections os1 = Inl e" by (cases "net_connections os1") simp_all
    then have snap: "snapshot_keys os1 = []" by (rule poll_connections_enumeration_failed)
    have "fst ` set (conn_info m1) = {}"
      unfolding m1 poll_once_ok_conn_keys[OF ok1 net] snap by simp
    then have empty: "conn_info m1 = []" by simp
    have "\<forall>k \<in> fst ` set (conn_info m). length (filter (ended_conn k) (logged out1)) = 1"
      unfolding out1 poll_once_ok_count_ended_conn[OF ok1] snap using net by simp
    moreover have "fst ` set (conn_info m2) = set (snapshot_keys os2)"
      unfolding m2 using net net1 by (simp add: poll_once_ok_conn_keys[OF ok2])
    ultimately show ?thesis using empty by simp
  qed
  from p procs conns show ?thesis by blast
qed

text \<open>An instance: both enumerations fail, then the first host is back.\<close>

theorem failed_enumeration_ends_everything_witness:
  "sink_ok ex_os_down \<and> sink_ok ex_os_seed
   \<and> isl (pids ex_os_down) \<and> isl (net_connections ex_os_down) \<and> monitor_network ex_monitor
   \<and> 100 \<in> fst ` set (pid_info ex_monitor) \<and> ex_K1 \<in> fst ` set (conn_info ex_monitor)
   \<and> length (filter (ended_pid 100) (logged (snd (snd (poll_once ex_os_down ex_monitor))))) = 1
   \<and> pid_info (fst (snd (poll_once ex_os_down ex_monitor))) = []
   \<and> 100 \<in> set (current_pids ex_os_seed) \<and> fetch_ok ex_os_seed 100
   \<and> length (filter (started_pid 100)
        (logged (snd (snd (poll_once ex_os_seed (fst (snd (poll_once ex_os_down ex_monitor)))))))) = 1
   \<and> 100 \<in> fst ` set (pid_info
        (fst (snd (poll_once ex_os_seed (fst (snd (poll_once ex_os_down ex_monitor)))))))
   \<and> length (filter (ended_conn ex_K1) (logged (snd (snd (poll_once ex_os_down ex_monitor))))) = 1
   \<and> conn_info (fst (snd (poll_once ex_os_down ex_monitor))) = []
   \<and> fst ` set (conn_info
        (fst (snd (poll_once ex_os_seed (fst (snd (poll_once ex_os_down ex_monitor)))))))
       = set (snapshot_keys ex_os_seed)"
proof -
  let ?m1 = "fst (snd (poll_once ex_os_down ex_monitor))"
  have poll1: "poll_once ex_os_down ex_monitor =
      (fst (poll_once ex_os_down ex_monitor), ?m1, snd (snd (poll_once ex_os_down ex_monitor)))"
    by simp
  have poll2: "poll_once ex_os_seed ?m1 =
      (fst (poll_once ex_os_seed ?m1), fst (snd (poll_once ex_os_seed ?m1)),
       snd (snd (poll_once ex_os_seed ?m1)))"
    by simp
  have hyps: "isl (pids ex_os_down)" "isl (net_connections ex_os_down)" "monitor_network ex_monitor"
    "100 \<in> fst ` set (pid_info ex_monitor)" "ex_K1 \<in> fst ` set (conn_info ex_monitor)"
    "100 \<in> set (current_pids ex_os_seed)" "fetch_ok ex_os_seed 100"
    by (simp_all add: run_defs ex_defs)
  from hyps ex_sinks(5) ex_sinks(1)
    failed_enumeration_ends_everything[OF ex_sinks(5) ex_sinks(1) poll1 poll2]
  show ?thesis by blast
qed

text \<open>
  The claim as written does not hold. After the failed poll, the next poll enumerates pid
  300, which cannot be read, and the connection identity \<open>ex_K2\<close>: neither is reported
  "started".
\<close>

theorem failed_enumeration_ends_everything_counterexample:
  "isl (pids ex_os_down) \<and> isl (net_connections ex_os_down)
   \<and> pid_info ex_monitor \<noteq> [] \<and> conn_info ex_monitor \<noteq> []
   \<and> 300 \<in> set (current_pids ex_os_vanishing)
   \<and> filter (started_pid 300)
        (logged (snd (snd (poll_once ex_os_vanishing (fst (snd (poll_once ex_os_down ex_monitor)))))))
       = []
   \<and> ex_K2 \<in> set (snapshot_keys ex_os_vanishing)
   \<and> filter (started_conn ex_K2)
        (logged (snd (snd (poll_once ex_os_vanishing (fst (snd (poll_once ex_os_down ex_monitor)))))))
       = []"
  by (simp add: run_defs ex_defs)

text \<open>
  C5 (seeding silence). Constructing a monitor writes nothing at all, whatever the host
  returns: no lifecycle event, no diagnostic. The initial enumeration only fills the
  state: the connection dictionary holds exactly the identities of the snapshot, and the
  process dictionary holds enumerated pids only. This holds for \<^verbatim>\<open>__init__\<close> of both
  source files.
\<close>

theorem seeding_silent:
  "snd (init os) = [] \<and> snd (init_pids os) = []
     \<and> fst ` set (conn_info (fst (init os))) = set (snapshot_keys os)
     \<and> fst ` set (pid_info (fst (init os))) \<subseteq> set (current_pids os)"
proof -
  have out: "snd (init os) = []" "snd (init_pids os) = []"
    by (simp_all add: init_def init_pids_def seed_connections_def Let_def)
  have conn: "fst ` set (conn_info (fst (init os))) = set (snapshot_keys os)"
    by (cases "net_connections os")
       (simp_all add: init_def seed_connections_def Let_def seed_conns_dom snapshot_keys_def
                      list_connections_def)
  have pid: "fst ` set (pid_info (fst (init os))) \<subseteq> set (current_pids os)"
  proof (cases "pids os")
    case (Inl e)
    then show ?thesis by (simp add: init_def seed_connections_def Let_def)
  next
    case (Inr ps)
    show ?thesis
    proof (cases "seed_pids os ps []")
      case (Inl e)
      with Inr show ?thesis by (simp add: init_def seed_connections_def Let_def)
    next
      case info: (Inr info)
      from seed_pids_dom[OF info] Inr info show ?thesis
        by (simp add: init_def seed_connections_def Let_def current_pids_def list_pids_def)
    qed
  qed
  from out conn pid show ?thesis by simp
qed

text \<open>An instance with a non-empty initial snapshot.\<close>

theorem seeding_silent_witness:
  "pid_info (fst (init ex_os_seed)) \<noteq> [] \<and> conn_info (fst (init ex_os_seed)) \<noteq> []
   \<and> snd (init ex_os_seed) = [] \<and> snd (init_pids ex_os_seed) = []"
proof -
  have "pid_info (fst (init ex_os_seed)) \<noteq> []" "conn_info (fst (init ex_os_seed)) \<noteq> []"
    by (simp_all add: run_defs ex_defs)
  with seeding_silent[of ex_os_seed] show ?thesis by blast
qed

text \<open>
  C6 (end-detail retention). For every cycle, whether or not a print fails:
  \<^item> a "Process Ended" event for \<open>x\<close> carries the name stored for \<open>x\<close> in the state
    before the poll;
  \<^item> a "Connection Ended" event for \<open>k\<close> carries the addresses, status and pid of the
    record stored for \<open>k\<close> in the state before the poll;
  \<^item> a record that is in the state before and after the poll is unchanged by it, so the
    stored values are those written when the identity was inserted;
  \<^item> a pid whose "started" event was printed is stored with the name of that event.
\<close>

theorem end_details_from_cache:
  assumes "poll_once os m = (r, m', out)"
  shows
    "(ProcessEnded x n \<in> set (logged out) \<union> set (printed out) \<longrightarrow>
        x \<in> fst ` set (pid_info m) \<and> n = map_of (pid_info m) x)
     \<and> (ConnectionEnded k l ra st pd \<in> set (logged out) \<union> set (printed out) \<longrightarrow>
          (\<exists>d. map_of (conn_info m) k = Some d \<and> l = info_laddr d \<and> ra = info_raddr d
                \<and> st = Some (info_status d) \<and> pd = Some (info_pid d)))
     \<and> (map_of (pid_info m) x = Some v \<and> x \<in> fst ` set (pid_info m') \<longrightarrow>
          map_of (pid_info m') x = Some v)
     \<and> (map_of (conn_info m) k = Some d \<and> k \<in> fst ` set (conn_info m') \<longrightarrow>
          map_of (conn_info m') k = Some d)
     \<and> (ProcessStarted x name ctime \<in> set (printed out) \<longrightarrow> map_of (pid_info m') x = Some name)"
proof -
  from assms have m': "m' = fst (snd (poll_once os m))" and out: "out = snd (snd (poll_once os m))"
    by simp_all
  let ?S = "set (concat (map (start_events os) (created_pids os m)))"
  let ?E = "end_event m ` set (ended_pids os m)"
  let ?C = "conn_end_event (conn_info m) ` set (ended_keys os (conn_info m))"
  have sub: "set (logged out) \<union> set (printed out) \<subseteq> ?S \<union> ?E \<union> ?C"
    unfolding out using poll_once_logged_subset[of os m] poll_once_printed_subset[of os m] by blast
  have S: "ev \<in> ?S \<Longrightarrow> \<exists>p name ctime. ev = ProcessStarted p name ctime" for ev
    by (auto simp: start_events_def split: sum.splits)
  have a: "x \<in> fst ` set (pid_info m) \<and> n = map_of (pid_info m) x"
    if "ProcessEnded x n \<in> set (logged out) \<union> set (printed out)"
  proof -
    from that sub have "ProcessEnded x n \<in> ?S \<union> ?E \<union> ?C" by blast
    moreover have "ProcessEnded x n \<notin> ?S" using S by blast
    moreover have "ProcessEnded x n \<notin> ?C" by (auto simp: conn_end_event_def Let_def)
    ultimately have "ProcessEnded x n \<in> ?E" by blast
    then show ?thesis by (auto simp: end_event_def set_ended_pids)
  qed
  have b: "\<exists>d. map_of (conn_info m) k = Some d \<and> l = info_laddr d \<and> ra = info_raddr d
                \<and> st = Some (info_status d) \<and> pd = Some (info_pid d)"
    if "ConnectionEnded k l ra st pd \<in> set (logged out) \<union> set (printed out)"
  proof -
    from that sub have "ConnectionEnded k l ra st pd \<in> ?S \<union> ?E \<union> ?C" by blast
    moreover have "ConnectionEnded k l ra st pd \<notin> ?S" using S by blast
    moreover have "ConnectionEnded k l ra st pd \<notin> ?E" by (auto simp: end_event_def)
    ultimately have "ConnectionEnded k l ra st pd \<in> ?C" by blast
    then have in_keys: "k \<in> fst ` set (conn_info m)"
      and ev: "ConnectionEnded k l ra st pd = conn_end_event (conn_info m) k"
      by (auto simp: conn_end_event_def Let_def set_ended_keys)
    from in_keys obtain d where d: "map_of (conn_info m) k = Some d"
      by (metis map_of_eq_None_iff not_None_eq)
    with ev show ?thesis by (simp add: conn_end_event_def)
  qed
  have c: "map_of (pid_info m') x = Some v"
    if "map_of (pid_info m) x = Some v" and "x \<in> fst ` set (pid_info m')"
  proof -
    from that(1) have "x \<in> fst ` set (pid_info m)"
      by (metis map_of_eq_None_iff option.distinct(1))
    from poll_pids_map_of[OF this, of os] that show ?thesis
      unfolding m' poll_once_pid_info by (auto simp: map_of_eq_None_iff)
  qed
  have d: "map_of (conn_info m') k = Some d"
    if "map_of (conn_info m) k = Some d" and "k \<in> fst ` set (conn_info m')"
  proof -
    let ?m1 = "fst (snd (poll_pids os m))"
    from that(1) have k: "k \<in> fst ` set (conn_info ?m1)"
      by (metis map_of_eq_None_iff option.distinct(1) poll_pids_other(1))
    show ?thesis
    proof (cases "fst (poll_pids os m) = None \<and> monitor_network m")
      case True
      then have "m' = fst (snd (poll_connections os ?m1))"
        unfolding m' by (simp add: poll_once_returned)
      with poll_connections_map_of[OF k, of os] that show ?thesis
        by (auto simp: map_of_eq_None_iff poll_pids_other)
    next
      case False
      then have "conn_info m' = conn_info m"
        unfolding m' by (cases "fst (poll_pids os m)")
          (auto simp: poll_once_raised poll_once_returned poll_pids_other)
      with that show ?thesis by simp
    qed
  qed
  have e: "map_of (pid_info m') x = Some name"
    if "ProcessStarted x name ctime \<in> set (printed out)"
  proof -
    have "ProcessStarted x name ctime \<notin> ?C" by (auto simp: conn_end_event_def Let_def)
    with that poll_once_printed_split[of os m]
    have "ProcessStarted x name ctime \<in> set (printed (snd (snd (poll_pids os m))))"
      unfolding out by blast
    from poll_pids_printed_started[OF this]
    have "x \<in> set (created_pids os m)" "starts os x" "fetch os x = Inr (name, ctime)"
      by simp_all
    with poll_pids_stored[of x os m] show ?thesis
      unfolding m' poll_once_pid_info by simp
  qed
  from a b c d e show ?thesis by blast
qed

text \<open>
  An instance: 101 and the established connection end, 100 and the listening socket stay,
  200 starts.
\<close>

theorem end_details_from_cache_witness:
  "ProcessEnded 101 (Some ''gamma'')
     \<in> set (logged (snd (snd (poll_once ex_os_next ex_monitor))))
       \<union> set (printed (snd (snd (poll_once ex_os_next ex_monitor))))
   \<and> 101 \<in> fst ` set (pid_info ex_monitor)
   \<and> Some ''gamma'' = map_of (pid_info ex_monitor) 101
   \<and> ConnectionEnded ex_K1 (Some ''10.0.0.5:443'') (Some ''10.0.0.9:5000'')
        (Some ''ESTABLISHED'') (Some ''100'')
     \<in> set (logged (snd (snd (poll_once ex_os_next ex_monitor))))
       \<union> set (printed (snd (snd (poll_once ex_os_next ex_monitor))))
   \<and> (\<exists>d. map_of (conn_info ex_monitor) ex_K1 = Some d
          \<and> Some ''10.0.0.5:443'' = info_laddr d \<and> Some ''10.0.0.9:5000'' = info_raddr d
          \<and> Some ''ESTABLISHED'' = Some (info_status d) \<and> Some ''100'' = Some (info_pid d))
   \<and> map_of (pid_info ex_monitor) 100 = Some ''alpha''
   \<and> 100 \<in> fst ` set (pid_info (fst (snd (poll_once ex_os_next ex_monitor))))
   \<and> map_of (pid_info (fst (snd (poll_once ex_os_next ex_monitor)))) 100 = Some ''alpha''
   \<and> map_of (conn_info ex_monitor) (conn_key ex_listen) = Some (conn_details ex_listen)
   \<and> conn_key ex_listen \<in> fst ` set (conn_info (fst (snd (poll_once ex_os_next ex_monitor))))
   \<and> map_of (conn_info (fst (snd (poll_once ex_os_next ex_monitor)))) (conn_key ex_listen)
       = Some (conn_details ex_listen)
   \<and> ProcessStarted 200 ''beta'' ''2026-01-01 00:00:00''
       \<in> set (printed (snd (snd (poll_once ex_os_next ex_monitor))))
   \<and> map_of (pid_info (fst (snd (poll_once ex_os_next ex_monitor)))) 200 = Some ''beta''"
proof -
  have poll: "poll_once ex_os_next ex_monitor =
      (fst (poll_once ex_os_next ex_monitor), fst (snd (poll_once ex_os_next ex_monitor)),
       snd (snd (poll_once ex_os_next ex_monitor)))"
    by simp
  have hyps:
    "ProcessEnded 101 (Some ''gamma'')
       \<in> set (logged (snd (snd (poll_once ex_os_next ex_monitor))))
         \<union> set (printed (snd (snd (poll_once ex_os_next ex_monitor))))"
    "ConnectionEnded ex_K1 (Some ''10.0.0.5:443'') (Some ''10.0.0.9:5000'')
        (Some ''ESTABLISHED'') (Some ''100'')
       \<in> set (logged (snd (snd (poll_once ex_os_next ex_monitor))))
         \<union> set (printed (snd (snd (poll_once ex_os_next ex_monitor))))"
    "map_of (pid_info ex_monitor) 100 = Some ''alpha''"
    "100 \<in> fst ` set (pid_info (fst (snd (poll_once ex_os_next ex_monitor))))"
    "map_of (conn_info ex_monitor) (conn_key ex_listen) = Some (conn_details ex_listen)"
    "conn_key ex_listen \<in> fst ` set (conn_info (fst (snd (poll_once ex_os_next ex_monitor))))"
    "ProcessStarted 200 ''beta'' ''2026-01-01 00:00:00''
       \<in> set (printed (snd (snd (poll_once ex_os_next ex_monitor))))"
    by (simp_all add: run_defs ex_defs)
  note a = end_details_from_cache[OF poll, where x = 101 and n = "Some ''gamma''" and k = ex_K1
      and l = "Some ''10.0.0.5:443''" and ra = "Some ''10.0.0.9:5000''"
      and st = "Some ''ESTABLISHED''" and pd = "Some ''100''" and v = "''gamma''"
      and d = "conn_details (ex_conn ''ESTABLISHED'')" and name = "''gamma''"
      and ctime = "''2026-01-01 00:00:00''"]
  note b = end_details_from_cache[OF poll, where x = 100 and n = "Some ''alpha''"
      and k = "conn_key ex_listen" and l = None and ra = None and st = None and pd = None
      and v = "''alpha''" and d = "conn_details ex_listen" and name = "''alpha''"
      and ctime = "''2026-01-01 00:00:00''"]
  note c = end_details_from_cache[OF poll, where x = 200 and n = "Some ''beta''"
      and k = ex_K2 and l = None and ra = None and st = None and pd = None
      and v = "''beta''" and d = "conn_details (ex_conn ''CLOSE_WAIT'')" and name = "''beta''"
      and ctime = "''2026-01-01 00:00:00''"]
  note ended = a[THEN conjunct1, THEN mp, OF hyps(1)]
  note conn_ended = a[THEN conjunct2, THEN conjunct1, THEN mp, OF hyps(2)]
  note kept = b[THEN conjunct2, THEN conjunct2, THEN conjunct1, THEN mp, OF conjI[OF hyps(3) hyps(4)]]
  note conn_kept =
    b[THEN conjunct2, THEN conjunct2, THEN conjunct2, THEN conjunct1, THEN mp,
      OF conjI[OF hyps(5) hyps(6)]]
  note stored =
    c[THEN conjunct2, THEN conjunct2, THEN conjunct2, THEN conjunct2, THEN mp, OF hyps(7)]
  show ?thesis
    by (intro conjI hyps ended[THEN conjunct1] ended[THEN conjunct2] conn_ended kept conn_kept
          stored)
qed

text \<open>
  C7 (idempotent re-poll). From any state, two consecutive cycles against the same host
  (same enumerations, same process details, prints succeeding) log and print no event in
  the second cycle.
\<close>

theorem repoll_silent:
  assumes "sink_ok os" and "poll_once os m = (r1, m1, out1)" and "poll_once os m1 = (r2, m2, out2)"
  shows "logged out2 = [] \<and> printed out2 = []"
proof -
  note ok = assms(1)
  from assms(2) have m1: "m1 = fst (snd (poll_once os m))" by simp
  from assms(3) have out2: "out2 = snd (snd (poll_once os m1))" by simp
  have keys: "fst ` set (pid_info m1) =
      {p \<in> set (current_pids os). p \<in> fst ` set (pid_info m) \<or> fetch_ok os p}"
    unfolding m1 by (rule poll_once_ok_pid_keys[OF ok])
  have net: "monitor_network m1 = monitor_network m"
    unfolding m1 by (rule poll_once_other)
  have "set (ended_pids os m1) = {}"
    using keys by (auto simp: set_ended_pids)
  then have e: "ended_pids os m1 = []" by simp
  have "\<forall>p \<in> set (created_pids os m1). start_events os p = []"
    using keys by (auto simp: set_created_pids start_events_def fetch_ok_def split: sum.splits)
  then have s: "concat (map (start_events os) (created_pids os m1)) = []"
    by simp
  have c: "monitor_network m1 \<Longrightarrow> ended_keys os (conn_info m1) = []"
  proof -
    assume "monitor_network m1"
    with net have "fst ` set (conn_info m1) = set (snapshot_keys os)"
      unfolding m1 using poll_once_ok_conn_keys[OF ok, of m] by simp
    then have "set (ended_keys os (conn_info m1)) = {}"
      by (simp add: set_ended_keys)
    then show ?thesis by simp
  qed
  have "logged out2 = []"
    unfolding out2 poll_once_ok_logged[OF ok] using s e c by simp
  moreover have "printed out2 = logged out2"
    unfolding out2 by (rule poll_once_ok_printed[OF ok])
  ultimately show ?thesis by simp
qed

text \<open>An instance in which the first of the two polls does emit events.\<close>

theorem repoll_silent_witness:
  "sink_ok ex_os_next
   \<and> logged (snd (snd (poll_once ex_os_next ex_monitor))) \<noteq> []
   \<and> logged (snd (snd (poll_once ex_os_next (fst (snd (poll_once ex_os_next ex_monitor)))))) = []
   \<and> printed (snd (snd (poll_once ex_os_next (fst (snd (poll_once ex_os_next ex_monitor)))))) = []"
proof -
  let ?m1 = "fst (snd (poll_once ex_os_next ex_monitor))"
  have poll1: "poll_once ex_os_next ex_monitor =
      (fst (poll_once ex_os_next ex_monitor), ?m1, snd (snd (poll_once ex_os_next ex_monitor)))"
    by simp
  have poll2: "poll_once ex_os_next ?m1 =
      (fst (poll_once ex_os_next ?m1), fst (snd (poll_once ex_os_next ?m1)),
       snd (snd (poll_once ex_os_next ?m1)))"
    by simp
  have first: "logged (snd (snd (poll_once ex_os_next ex_monitor))) \<noteq> []"
    by (simp add: run_defs ex_defs)
  from first ex_sinks(2) repoll_silent[OF ex_sinks(2) poll1 poll2]
  show ?thesis by blast
qed

text \<open>
  C8 (diagnostics of an enumeration failure), as the code has it. In a cycle whose prints
  succeed, no exception leaves the cycle, and the loop, when running and not interrupted,
  goes on with the next cycle. If \<^verbatim>\<open>psutil.pids()\<close> fails, exactly one error-level
  diagnostic is logged in the cycle, the process snapshot is empty and so is the process
  state afterwards. If \<^verbatim>\<open>psutil.net_connections()\<close> fails, exactly one debug-level
  diagnostic is logged, the connection poll adds no error-level diagnostic, the
  connection snapshot is empty and so is the connection state afterwards.
\<close>

theorem enumeration_failure_diagnostics:
  assumes "sink_ok os" and "poll_once os m = (r, m', out)"
  shows
    "r = None
     \<and> (running m \<and> \<not> interrupted os \<longrightarrow>
          loop (os # rest) m =
            (fst (loop rest m'), fst (snd (loop rest m')), out @ snd (snd (loop rest m'))))
     \<and> (pids os = Inl e \<longrightarrow>
          diagnostics ERROR out = [''Failed to list PIDs: '' @ str_exn e]
          \<and> current_pids os = [] \<and> pid_info m' = [])
     \<and> (monitor_network m \<and> net_connections os = Inl e' \<longrightarrow>
          diagnostics DEBUG out = [''Failed to list network connections: '' @ str_exn e']
          \<and> diagnostics ERROR out = diagnostics ERROR (snd (snd (poll_pids os m)))
          \<and> snapshot_keys os = [] \<and> conn_info m' = [])"
proof -
  note ok = assms(1)
  from assms(2) have r: "r = fst (poll_once os m)" and m': "m' = fst (snd (poll_once os m))"
    and out: "out = snd (snd (poll_once os m))"
    by simp_all
  have none: "r = None"
    unfolding r by (rule poll_once_ok_None[OF ok])
  have cont: "loop (os # rest) m =
            (fst (loop rest m'), fst (snd (loop rest m')), out @ snd (snd (loop rest m')))"
    if "running m" and "\<not> interrupted os"
    using that assms(2) none by (intro loop_continues) simp_all
  have procs: "diagnostics ERROR out = [''Failed to list PIDs: '' @ str_exn e]
          \<and> current_pids os = [] \<and> pid_info m' = []"
    if e: "pids os = Inl e"
  proof -
    have cur: "current_pids os = []" using e by (rule poll_pids_enumeration_failed)
    have "fst ` set (pid_info m') = {}"
      unfolding m' poll_once_ok_pid_keys[OF ok] cur by simp
    then have "pid_info m' = []" by simp
    with cur show ?thesis
      unfolding out poll_once_error by (simp add: poll_pids_enumeration_failed(2)[OF e])
  qed
  have conns: "diagnostics DEBUG out = [''Failed to list network connections: '' @ str_exn e']
          \<and> diagnostics ERROR out = diagnostics ERROR (snd (snd (poll_pids os m)))
          \<and> snapshot_keys os = [] \<and> conn_info m' = []"
    if net: "monitor_network m" and e: "net_connections os = Inl e'"
  proof -
    have snap: "snapshot_keys os = []" using e by (rule poll_connections_enumeration_failed)
    have "fst ` set (conn_info m') = {}"
      unfolding m' poll_once_ok_conn_keys[OF ok net] snap by simp
    then have "conn_info m' = []" by simp
    moreover have "diagnostics DEBUG out = [''Failed to list network connections: '' @ str_exn e']"
      unfolding out poll_once_debug[OF poll_pids_ok_None[OF ok] net]
      by (rule poll_connections_enumeration_failed(2)[OF e])
    ultimately show ?thesis
      using snap unfolding out poll_once_error by simp
  qed
  from none cont procs conns show ?thesis by blast
qed

text \<open>An instance: both enumerations fail, and the loop runs the following cycle.\<close>

theorem enumeration_failure_diagnostics_witness:
  "sink_ok ex_os_down \<and> running ex_monitor \<and> \<not> interrupted ex_os_down
   \<and> monitor_network ex_monitor
   \<and> pids ex_os_down = Inl (OtherException ''permission denied'')
   \<and> net_connections ex_os_down = Inl (OtherException ''access denied'')
   \<and> fst (poll_once ex_os_down ex_monitor) = None
   \<and> loop [ex_os_down, ex_os_seed] ex_monitor =
       (fst (loop [ex_os_seed] (fst (snd (poll_once ex_os_down ex_monitor)))),
        fst (snd (loop [ex_os_seed] (fst (snd (poll_once ex_os_down ex_monitor))))),
        snd (snd (poll_once ex_os_down ex_monitor))
          @ snd (snd (loop [ex_os_seed] (fst (snd (poll_once ex_os_down ex_monitor))))))
   \<and> diagnostics ERROR (snd (snd (poll_once ex_os_down ex_monitor))) =
       [''Failed to list PIDs: '' @ str_exn (OtherException ''permission denied'')]
   \<and> current_pids ex_os_down = []
   \<and> pid_info (fst (snd (poll_once ex_os_down ex_monitor))) = []
   \<and> diagnostics DEBUG (snd (snd (poll_once ex_os_down ex_monitor))) =
       [''Failed to list network connections: '' @ str_exn (OtherException ''access denied'')]
   \<and> diagnostics ERROR (snd (snd (poll_once ex_os_down ex_monitor))) =
       diagnostics ERROR (snd (snd (poll_pids ex_os_down ex_monitor)))
   \<and> snapshot_keys ex_os_down = []
   \<and> conn_info (fst (snd (poll_once ex_os_down ex_monitor))) = []"
proof -
  have poll: "poll_once ex_os_down ex_monitor =
      (fst (poll_once ex_os_down ex_monitor), fst (snd (poll_once ex_os_down ex_monitor)),
       snd (snd (poll_once ex_os_down ex_monitor)))"
    by simp
  have hyps: "running ex_monitor" "\<not> interrupted ex_os_down" "monitor_network ex_monitor"
    "pids ex_os_down = Inl (OtherException ''permission denied'')"
    "net_connections ex_os_down = Inl (OtherException ''access denied'')"
    by (simp_all add: run_defs ex_defs)
  from hyps ex_sinks(5)
    enumeration_failure_diagnostics[OF ex_sinks(5) poll, where rest = "[ex_os_seed]"
      and e = "OtherException ''permission denied''" and e' = "OtherException ''access denied''"]
  show ?thesis by blast
qed

text \<open>
  The claim as written does not hold for the connection watcher: its enumeration fails
  and no error-level diagnostic is logged, only a debug-level one.
\<close>

theorem enumeration_failure_diagnostics_counterexample:
  "net_connections ex_os_net_down = Inl (OtherException ''access denied'')
   \<and> monitor_network ex_monitor
   \<and> diagnostics ERROR (snd (snd (poll_once ex_os_net_down ex_monitor))) = []
   \<and> diagnostics DEBUG (snd (snd (poll_once ex_os_net_down ex_monitor))) =
       [''Failed to list network connections: access denied'']"
  by (simp add: run_defs ex_defs)

text \<open>
  C9 (a failed start is retried). If a newly enumerated pid cannot be read during
  start-logging, the cycle logs and prints no event for it and does not store it.
  Consequently, when the next cycle enumerates the pid again it is in \<^verbatim>\<open>created\<close>
  again, and if it can then be read (and printed), exactly that "started" event is
  emitted and the pid is stored with its name.
\<close>

theorem failed_start_is_retried:
  assumes "poll_once os m = (r, m1, out)"
    and "x \<in> set (current_pids os) - fst ` set (pid_info m)" and "\<not> fetch_ok os x"
  shows
    "filter (started_pid x) (logged out) = [] \<and> filter (started_pid x) (printed out) = []
     \<and> filter (ended_pid x) (logged out) = [] \<and> filter (ended_pid x) (printed out) = []
     \<and> x \<notin> fst ` set (pid_info m1)
     \<and> (x \<in> set (current_pids os2) \<longrightarrow> x \<in> set (created_pids os2 m1))
     \<and> (x \<in> set (current_pids os2) \<and> sink_ok os2 \<and> fetch os2 x = Inr (name, ctime)
          \<and> poll_once os2 m1 = (r2, m2, out2) \<longrightarrow>
          filter (started_pid x) (logged out2) = [ProcessStarted x name ctime]
          \<and> filter (started_pid x) (printed out2) = [ProcessStarted x name ctime]
          \<and> map_of (pid_info m2) x = Some name)"
proof -
  from assms(1) have m1: "m1 = fst (snd (poll_once os m))" and out: "out = snd (snd (poll_once os m))"
    by simp_all
  let ?S = "set (concat (map (start_events os) (created_pids os m)))"
  let ?E = "end_event m ` set (ended_pids os m)"
  let ?C = "conn_end_event (conn_info m) ` set (ended_keys os (conn_info m))"
  have sub: "set (logged out) \<union> set (printed out) \<subseteq> ?S \<union> ?E \<union> ?C"
    unfolding out using poll_once_logged_subset[of os m] poll_once_printed_subset[of os m] by blast
  have nS: "\<not> started_pid x ev \<and> \<not> ended_pid x ev" if "ev \<in> ?S" for ev
    using that assms(3) by (auto simp: start_events_def fetch_ok_def split: sum.splits)
  have nE: "\<not> started_pid x ev \<and> \<not> ended_pid x ev" if "ev \<in> ?E" for ev
    using that assms(2) by (auto simp: end_event_def set_ended_pids)
  have nC: "\<not> started_pid x ev \<and> \<not> ended_pid x ev" if "ev \<in> ?C" for ev
    using that by (auto simp: conn_end_event_def Let_def)
  from sub nS nE nC
  have quiet: "\<forall>ev \<in> set (logged out) \<union> set (printed out). \<not> started_pid x ev \<and> \<not> ended_pid x ev"
    by blast
  then have f: "filter (started_pid x) (logged out) = []" "filter (started_pid x) (printed out) = []"
    "filter (ended_pid x) (logged out) = []" "filter (ended_pid x) (printed out) = []"
    by (auto simp: filter_empty_conv)
  have "\<not> starts os x"
    using assms(3) by (auto simp: starts_def fetch_ok_def split: sum.splits)
  with poll_pids_keys_subset[of os m] assms(2)
  have absent: "x \<notin> fst ` set (pid_info m1)"
    unfolding m1 poll_once_pid_info by auto
  then have again: "x \<in> set (current_pids os2) \<Longrightarrow> x \<in> set (created_pids os2 m1)"
    by (simp add: set_created_pids)
  have retry: "filter (started_pid x) (logged out2) = [ProcessStarted x name ctime]
          \<and> filter (started_pid x) (printed out2) = [ProcessStarted x name ctime]
          \<and> map_of (pid_info m2) x = Some name"
    if cur: "x \<in> set (current_pids os2)" and ok: "sink_ok os2"
      and fetched: "fetch os2 x = Inr (name, ctime)" and poll: "poll_once os2 m1 = (r2, m2, out2)"
  proof -
    from poll have m2: "m2 = fst (snd (poll_once os2 m1))" and out2: "out2 = snd (snd (poll_once os2 m1))"
      by simp_all
    from again[OF cur] have cr: "x \<in> set (created_pids os2 m1)" .
    have st: "starts os2 x"
      using ok fetched by (simp add: starts_def sink_ok_def)
    have l: "filter (started_pid x) (logged out2) = [ProcessStarted x name ctime]"
      unfolding out2 poll_once_ok_logged[OF ok]
      using cr fetched
      by (simp add: no_cross_events filter_started_in_starts[OF distinct_created_pids]
                    start_events_def)
    moreover have "printed out2 = logged out2"
      unfolding out2 by (rule poll_once_ok_printed[OF ok])
    moreover have "map_of (pid_info m2) x = Some name"
      unfolding m2 poll_once_pid_info using poll_pids_stored[OF cr st] fetched by simp
    ultimately show ?thesis by simp
  qed
  from f absent again retry show ?thesis by blast
qed

text \<open>An instance: pid 300 cannot be read in one cycle and can in the next.\<close>

theorem failed_start_is_retried_witness:
  "300 \<in> set (current_pids ex_os_vanishing) - fst ` set (pid_info ex_monitor)
   \<and> \<not> fetch_ok ex_os_vanishing 300
   \<and> filter (started_pid 300) (logged (snd (snd (poll_once ex_os_vanishing ex_monitor)))) = []
   \<and> filter (started_pid 300) (printed (snd (snd (poll_once ex_os_vanishing ex_monitor)))) = []
   \<and> filter (ended_pid 300) (logged (snd (snd (poll_once ex_os_vanishing ex_monitor)))) = []
   \<and> filter (ended_pid 300) (printed (snd (snd (poll_once ex_os_vanishing ex_monitor)))) = []
   \<and> 300 \<notin> fst ` set (pid_info (fst (snd (poll_once ex_os_vanishing ex_monitor))))
   \<and> 300 \<in> set (current_pids ex_os_readable)
   \<and> 300 \<in> set (created_pids ex_os_readable (fst (snd (poll_once ex_os_vanishing ex_monitor))))
   \<and> sink_ok ex_os_readable
   \<and> fetch ex_os_readable 300 = Inr (''delta'', ''2026-01-01 00:00:00'')
   \<and> filter (started_pid 300)
        (logged (snd (snd (poll_once ex_os_readable
                   (fst (snd (poll_once ex_os_vanishing ex_monitor)))))))
       = [ProcessStarted 300 ''delta'' ''2026-01-01 00:00:00'']
   \<and> filter (started_pid 300)
        (printed (snd (snd (poll_once ex_os_readable
                   (fst (snd (poll_once ex_os_vanishing ex_monitor)))))))
       = [ProcessStarted 300 ''delta'' ''2026-01-01 00:00:00'']
   \<and> map_of (pid_info (fst (snd (poll_once ex_os_readable
                   (fst (snd (poll_once ex_os_vanishing ex_monitor))))))) 300
       = Some ''delta''"
proof -
  let ?m1 = "fst (snd (poll_once ex_os_vanishing ex_monitor))"
  have poll1: "poll_once ex_os_vanishing ex_monitor =
      (fst (poll_once ex_os_vanishing ex_monitor), ?m1,
       snd (snd (poll_once ex_os_vanishing ex_monitor)))"
    by simp
  have poll2: "poll_once ex_os_readable ?m1 =
      (fst (poll_once ex_os_readable ?m1), fst (snd (poll_once ex_os_readable ?m1)),
       snd (snd (poll_once ex_os_readable ?m1)))"
    by simp
  have hyps: "300 \<in> set (current_pids ex_os_vanishing) - fst ` set (pid_info ex_monitor)"
    "\<not> fetch_ok ex_os_vanishing 300"
    "300 \<in> set (current_pids ex_os_readable)"
    "fetch ex_os_readable 300 = Inr (''delta'', ''2026-01-01 00:00:00'')"
    by (simp_all add: run_defs ex_defs)
  from hyps ex_sinks(4) poll2
    failed_start_is_retried[OF poll1 hyps(1) hyps(2), where ?os2.0 = ex_os_readable
      and name = "''delta''" and ctime = "''2026-01-01 00:00:00''"
      and ?r2.0 = "fst (poll_once ex_os_readable ?m1)"
      and ?m2.0 = "fst (snd (poll_once ex_os_readable ?m1))"
      and ?out2.0 = "snd (snd (poll_once ex_os_readable ?m1))"]
  show ?thesis by blast
qed

text \<open>
  C10 (a failing connection poll is contained). If the process part of a cycle returns
  and \<^verbatim>\<open>_poll_connections\<close> raises, then \<^verbatim>\<open>_poll_once\<close> returns normally with what both
  parts wrote, the process state is the one the process part left, the connection part
  wrote no process event, and the loop, when running and not interrupted, goes on with
  the next cycle.
\<close>

theorem connection_failure_contained:
  assumes "poll_pids os m = (None, m1, out1)" and "monitor_network m"
    and "poll_connections os m1 = (Some e, m2, out2)"
  shows
    "poll_once os m = (None, m2, out1 @ out2)
     \<and> pid_info m2 = pid_info m1
     \<and> filter process_event (logged out2) = [] \<and> filter process_event (printed out2) = []
     \<and> (running m \<and> \<not> interrupted os \<longrightarrow>
          loop (os # rest) m =
            (fst (loop rest m2), fst (snd (loop rest m2)), (out1 @ out2) @ snd (snd (loop rest m2))))"
proof -
  from assms(1) have net1: "monitor_network m1"
    using poll_pids_other(3)[of os m] assms(2) by simp
  have once: "poll_once os m = (None, m2, out1 @ out2)"
    using assms net1 by (simp add: poll_once_def and_then_def)
  have same: "pid_info m2 = pid_info m1"
    using poll_connections_other(1)[of os m1] assms(3) by simp
  have "\<forall>ev \<in> conn_end_event (conn_info m1) ` set (ended_keys os (conn_info m1)). \<not> process_event ev"
    by (auto simp: conn_end_event_def Let_def)
  with poll_connections_logged_subset[of os m1] poll_connections_printed_subset[of os m1] assms(3)
  have quiet: "filter process_event (logged out2) = []" "filter process_event (printed out2) = []"
    by (auto simp: filter_empty_conv)
  have cont: "loop (os # rest) m =
            (fst (loop rest m2), fst (snd (loop rest m2)), (out1 @ out2) @ snd (snd (loop rest m2)))"
    if "running m" and "\<not> interrupted os"
    using that once by (intro loop_continues) simp_all
  from once same quiet cont show ?thesis by blast
qed

text \<open>
  An instance: standard output refuses the "Connection Ended" line, so
  \<^verbatim>\<open>_poll_connections\<close> raises after logging it.
\<close>

theorem connection_failure_contained_witness:
  "poll_pids ex_os_broken_pipe ex_monitor = (None, ex_monitor, [])
   \<and> monitor_network ex_monitor \<and> running ex_monitor \<and> \<not> interrupted ex_os_broken_pipe
   \<and> poll_connections ex_os_broken_pipe ex_monitor =
       (Some (OtherException ''broken pipe''), ex_monitor,
        [LogEvent (ConnectionEnded ex_K1 (Some ''10.0.0.5:443'') (Some ''10.0.0.9:5000'')
           (Some ''ESTABLISHED'') (Some ''100''))])
   \<and> poll_once ex_os_broken_pipe ex_monitor =
       (None, ex_monitor,
        [] @ [LogEvent (ConnectionEnded ex_K1 (Some ''10.0.0.5:443'') (Some ''10.0.0.9:5000'')
           (Some ''ESTABLISHED'') (Some ''100''))])
   \<and> pid_info ex_monitor = pid_info ex_monitor
   \<and> filter process_event
        (logged [LogEvent (ConnectionEnded ex_K1 (Some ''10.0.0.5:443'') (Some ''10.0.0.9:5000'')
           (Some ''ESTABLISHED'') (Some ''100''))]) = []
   \<and> loop [ex_os_broken_pipe, ex_os_seed] ex_monitor =
       (fst (loop [ex_os_seed] ex_monitor), fst (snd (loop [ex_os_seed] ex_monitor)),
        ([] @ [LogEvent (ConnectionEnded ex_K1 (Some ''10.0.0.5:443'') (Some ''10.0.0.9:5000'')
           (Some ''ESTABLISHED'') (Some ''100''))])
          @ snd (snd (loop [ex_os_seed] ex_monitor)))"
proof -
  have pids: "poll_pids ex_os_broken_pipe ex_monitor = (None, ex_monitor, [])"
    by (simp add: run_defs ex_defs)
  have conns: "poll_connections ex_os_broken_pipe ex_monitor =
       (Some (OtherException ''broken pipe''), ex_monitor,
        [LogEvent (ConnectionEnded ex_K1 (Some ''10.0.0.5:443'') (Some ''10.0.0.9:5000'')
           (Some ''ESTABLISHED'') (Some ''100''))])"
    by (simp add: run_defs ex_defs message.simps)
  have hyps: "monitor_network ex_monitor" "running ex_monitor" "\<not> interrupted ex_os_broken_pipe"
    by (simp_all add: run_defs ex_defs)
  note t = connection_failure_contained[OF pids hyps(1) conns, where rest = "[ex_os_seed]"]
  note once = t[THEN conjunct1]
  note same = t[THEN conjunct2, THEN conjunct1]
  note quiet = t[THEN conjunct2, THEN conjunct2, THEN conjunct1]
  note cont =
    t[THEN conjunct2, THEN conjunct2, THEN conjunct2, THEN conjunct2, THEN mp,
      OF conjI[OF hyps(2) hyps(3)]]
  show ?thesis
    by (intro conjI pids conns hyps once same quiet cont)
qed


end
